theory Spec2Isabelle
  imports Main "HOL-Library.Multiset" "HOL-Library.Char_ord" "HOL-Library.List_Lexorder"
begin

section \<open>Data model of package scanner\<close>

text \<open>
  Go strings are byte sequences: \<open>string\<close>, ordered bytewise and lexicographically
  (\<open>Char_ord\<close>, \<open>List_Lexorder\<close>), as Go's \<open><\<close> on strings is. A Go \<open>error\<close>
  is represented by the text its \<open>Error()\<close> method yields, which is all the package
  ever uses of one (\<open>%v\<close>, \<open>%s\<close>); the nil error is \<open>None\<close>. A slice is a list,
  the nil slice being \<open>[]\<close>. A pointer to a Repository or a Release is represented
  by the record it points to (the records are never mutated after decoding, and the
  decoders are taken to yield non-nil elements). Go's \<open>int\<close> is \<open>int\<close>: the only
  arithmetic is \<open>page++\<close>, starting at 1.
\<close>

type_synonym error = string

definition GitHuhApi :: string where
  "GitHuhApi = ''https://api.github.com''"

definition perPage :: int where
  "perPage = 100"

definition maxWorkersCount :: nat where
  "maxWorkersCount = 100"

record Release =
  Name :: string

record Repository =
  FullName :: string
  Name :: string

record ResultItem =
  Repository :: Repository
  Releases :: "Release list"

record Scanner =
  BaseUrl :: string
  PerPage :: int

definition GetDefaultScanner :: Scanner where
  "GetDefaultScanner = \<lparr>BaseUrl = GitHuhApi, PerPage = perPage\<rparr>"

subsection \<open>The libraries the package calls\<close>

text \<open>
  What \<open>http.Get\<close> answers and how \<open>encoding/json\<close> decodes are not code of the
  package: they are parameters, collected in a record. A response body is the bytes
  read from it together with the read error that ended the reading, if any, which is
  what \<open>io.ReadAll\<close> returns. The forge answers a request by its URL alone.

  \<open>Unmarshal_message\<close> is \<open>json.Unmarshal\<close> into the struct of line 247, whose
  only field is \<open>Message\<close>: it returns an error, or else it has stored a string in
  the field (\<open>Some\<close>) or has left the field as it was (\<open>None\<close>), which is what it
  does with a body that is valid JSON and has no message, such as \<open>{}\<close> or \<open>null\<close>.
\<close>

type_synonym body = "string \<times> error option"

record response =
  StatusCode :: int
  Status :: string
  Body :: body

record world =
  http_Get :: "string \<Rightarrow> error + response"
  Decode_Repositories :: "body \<Rightarrow> error + Repository list"
  Decode_Releases :: "body \<Rightarrow> error + Release list"
  Unmarshal_message :: "string \<Rightarrow> error + string option"

definition StatusOK :: int where
  "StatusOK = 200"

definition StatusNotFound :: int where
  "StatusNotFound = 404"

definition io_ReadAll :: "body \<Rightarrow> string \<times> error option" where
  "io_ReadAll b = b"

text \<open>The verb \<open>%d\<close> of \<open>fmt\<close>: decimal digits, with a minus sign below zero.\<close>

fun fmt_nat :: "nat \<Rightarrow> string" where
  "fmt_nat n =
     (if n < 10 then [''0123456789'' ! n]
      else fmt_nat (n div 10) @ [''0123456789'' ! (n mod 10)])"

definition fmt_d :: "int \<Rightarrow> string" where
  "fmt_d i = (if i < 0 then CHR ''-'' # fmt_nat (nat (- i)) else fmt_nat (nat i))"

section \<open>The catalog client\<close>

definition getPerPage :: "Scanner \<Rightarrow> int" where
  "getPerPage s = (if PerPage s \<le> 0 then perPage else PerPage s)"

definition checkPage :: "int \<Rightarrow> error option" where
  "checkPage page =
     (if page < 1 then Some ''page could not be less than 1'' else None)"

definition checkUser :: "string \<Rightarrow> error option" where
  "checkUser user =
     (if user = [] then Some ''user name could not be empty'' else None)"

definition checkRepository :: "string \<Rightarrow> error option" where
  "checkRepository repository =
     (if repository = [] then Some ''repository name could not be empty'' else None)"

text \<open>
  The struct \<open>message\<close> starts at its zero value, the empty string in the field
  \<open>Message\<close>; the function returns the field after an Unmarshal without error.
\<close>

definition getApiErrorMessage :: "world \<Rightarrow> body \<Rightarrow> string \<Rightarrow> string" where
  "getApiErrorMessage w reader defaultMessage =
     (case io_ReadAll reader of
        (mBytes, Some err) \<Rightarrow> defaultMessage
      | (mBytes, None) \<Rightarrow>
          (case Unmarshal_message w mBytes of
             Inl err \<Rightarrow> defaultMessage
           | Inr None \<Rightarrow> []
           | Inr (Some message) \<Rightarrow> message))"

definition releases_url :: "Scanner \<Rightarrow> string \<Rightarrow> string \<Rightarrow> int \<Rightarrow> string" where
  "releases_url s user repository page =
     BaseUrl s @ ''/repos/'' @ user @ ''/'' @ repository @ ''/releases?per_page=''
       @ fmt_d (getPerPage s) @ ''&page='' @ fmt_d page"

definition repositories_url :: "Scanner \<Rightarrow> string \<Rightarrow> int \<Rightarrow> string" where
  "repositories_url s user page =
     BaseUrl s @ ''/users/'' @ user @ ''/repos?per_page=''
       @ fmt_d (getPerPage s) @ ''&page='' @ fmt_d page"

text \<open>
  Every function of the package that talks to the forge returns, first, the URLs it
  requested, in order, and then the two values the Go function returns.
\<close>

type_synonym 'a fetched = "string list \<times> 'a list \<times> error option"

definition GetReleasesPerPage ::
  "world \<Rightarrow> Scanner \<Rightarrow> string \<Rightarrow> string \<Rightarrow> int \<Rightarrow> Release fetched" where
  "GetReleasesPerPage w s user repository page =
     (case checkPage page of
        Some err \<Rightarrow> ([], [], Some err)
      | None \<Rightarrow>
     (case checkUser user of
        Some err \<Rightarrow> ([], [], Some err)
      | None \<Rightarrow>
     (case checkRepository repository of
        Some err \<Rightarrow> ([], [], Some err)
      | None \<Rightarrow>
     (let url = releases_url s user repository page in
      (case http_Get w url of
         Inl err \<Rightarrow> ([url], [], Some err)
       | Inr response \<Rightarrow>
           if StatusCode response \<noteq> StatusOK then
             ([url], [], Some (''could not get releases for the repository '' @ repository
                 @ '': '' @ getApiErrorMessage w (Body response) (Status response)))
           else
             (case Decode_Releases w (Body response) of
                Inl err \<Rightarrow> ([url], [], Some err)
              | Inr releases \<Rightarrow> ([url], releases, None)))))))"

definition GetRepositoriesPerPage ::
  "world \<Rightarrow> Scanner \<Rightarrow> string \<Rightarrow> int \<Rightarrow> Repository fetched" where
  "GetRepositoriesPerPage w s user page =
     (case checkPage page of
        Some err \<Rightarrow> ([], [], Some err)
      | None \<Rightarrow>
     (case checkUser user of
        Some err \<Rightarrow> ([], [], Some err)
      | None \<Rightarrow>
     (let url = repositories_url s user page in
      (case http_Get w url of
         Inl err \<Rightarrow> ([url], [], Some err)
       | Inr response \<Rightarrow>
           if StatusCode response = StatusNotFound then
             ([url], [], Some (''account '' @ user @ '' does not exist''))
           else if StatusCode response \<noteq> StatusOK then
             ([url], [], Some (''could not get repositories for the account '' @ user
                 @ '': '' @ getApiErrorMessage w (Body response) (Status response)))
           else
             (case Decode_Repositories w (Body response) of
                Inl err \<Rightarrow> ([url], [], Some err)
              | Inr repositories \<Rightarrow> ([url], repositories, None))))))"

section \<open>The listers\<close>

text \<open>
  The two listers are loops without a bound: a forge that keeps answering full pages
  keeps them running. They are partial functions; \<open>None\<close> is the call that never
  returns. The loop state is the page, the accumulated slice and the URLs requested
  so far.
\<close>

partial_function (option) GetAllReleases_loop ::
  "world \<Rightarrow> Scanner \<Rightarrow> string \<Rightarrow> string \<Rightarrow> int \<Rightarrow> Release list \<Rightarrow> string list
     \<Rightarrow> Release fetched option" where
  "GetAllReleases_loop w s user repository page releases urls =
     (case GetReleasesPerPage w s user repository page of
        (reqs, releasesChunk, Some err) \<Rightarrow> Some (urls @ reqs, [], Some err)
      | (reqs, releasesChunk, None) \<Rightarrow>
          if int (length releasesChunk) < getPerPage s
          then Some (urls @ reqs, releases @ releasesChunk, None)
          else GetAllReleases_loop w s user repository (page + 1)
                 (releases @ releasesChunk) (urls @ reqs))"

definition GetAllReleases ::
  "world \<Rightarrow> Scanner \<Rightarrow> string \<Rightarrow> string \<Rightarrow> Release fetched option" where
  "GetAllReleases w s user repository = GetAllReleases_loop w s user repository 1 [] []"

partial_function (option) GetAllRepositories_loop ::
  "world \<Rightarrow> Scanner \<Rightarrow> string \<Rightarrow> int \<Rightarrow> Repository list \<Rightarrow> string list
     \<Rightarrow> Repository fetched option" where
  "GetAllRepositories_loop w s user page repositories urls =
     (case GetRepositoriesPerPage w s user page of
        (reqs, repositoriesChunk, Some err) \<Rightarrow> Some (urls @ reqs, [], Some err)
      | (reqs, repositoriesChunk, None) \<Rightarrow>
          if int (length repositoriesChunk) < getPerPage s
          then Some (urls @ reqs, repositories @ repositoriesChunk, None)
          else GetAllRepositories_loop w s user (page + 1)
                 (repositories @ repositoriesChunk) (urls @ reqs))"

definition GetAllRepositories ::
  "world \<Rightarrow> Scanner \<Rightarrow> string \<Rightarrow> Repository fetched option" where
  "GetAllRepositories w s user = GetAllRepositories_loop w s user 1 [] []"

section \<open>The scan coordinator\<close>

text \<open>
  \<open>sort.SliceStable\<close> with the comparison of the full names is the stable sort by
  that key.
\<close>

definition sortResultItems :: "ResultItem list \<Rightarrow> ResultItem list" where
  "sortResultItems items = sort_key (\<lambda>item. FullName (Repository item)) items"

text \<open>
  After the listing, ScanRepositories is a coordinator and min(N, 100) workers that
  share three channels and a cancellation context. It is a transition system on the
  record \<open>scan\<close>. A worker is at one of these points of its closure:
  \<^item> \<open>Waiting\<close>: at \<open>for repository := range jobs\<close>;
  \<^item> \<open>Received r\<close>: holding the job r, at the \<open>select\<close> on \<open>ctx.Done()\<close>;
  \<^item> \<open>Fetching r\<close>: at the call of GetAllReleases for r;
  \<^item> \<open>SendingError err\<close>: at \<open>errors <- err\<close>;
  \<^item> \<open>Cancelling\<close>: the error is delivered, at \<open>cancel()\<close>;
  \<^item> \<open>SendingResult item\<close>: at \<open>results <- item\<close>;
  \<^item> \<open>Exited\<close>: the closure has returned;
  \<^item> \<open>Panicked\<close>: it sent on a closed channel.

  The coordinator is in the loop that sends the jobs (\<open>Enqueuing rs\<close>, with rs still
  to send, then \<open>close(jobs)\<close>), at the \<open>select\<close> of the collecting loop
  (\<open>Collecting i items\<close>), or it has returned (\<open>Returned items err\<close>, the values of
  the named results).
\<close>

datatype worker =
    Waiting
  | Received Repository
  | Fetching Repository
  | SendingError error
  | Cancelling
  | SendingResult ResultItem
  | Exited
  | Panicked

datatype coordinator =
    Enqueuing "Repository list"
  | Collecting nat "ResultItem list"
  | Returned "ResultItem list" "error option"

text \<open>
  The shared state: the buffers of the channels \<open>jobs\<close> and \<open>results\<close> (both of
  capacity \<open>jobsCount\<close>) and whether each channel is closed (the channel \<open>errors\<close>
  has no buffer), and whether the context is cancelled. Three fields are history only:
  the URLs requested so far, the release listings that failed, in the order in which
  they failed, and the items that the coordinator has received from the channel
  \<open>results\<close>, in the order in which it received them.
\<close>

record scan =
  jobsCount :: nat
  jobs :: "Repository list"
  jobs_closed :: bool
  results :: "ResultItem list"
  results_closed :: bool
  errors_closed :: bool
  ctx_done :: bool
  workers :: "worker list"
  coordinator :: coordinator
  requests :: "string list"
  failures :: "(Repository \<times> error) list"
  drained :: "ResultItem list"

text \<open>The error of line 99: the worker's error with the account in front.\<close>

definition AccountScanFailed :: "string \<Rightarrow> error \<Rightarrow> error" where
  "AccountScanFailed user err =
     ''could not scan repository for the account '' @ user @ '': '' @ err"

text \<open>
  A \<open>return\<close> after the channels were made runs the deferred function: \<open>cancel()\<close>,
  \<open>close(results)\<close>, \<open>close(errors)\<close>.
\<close>

definition return_scan :: "scan \<Rightarrow> ResultItem list \<Rightarrow> error option \<Rightarrow> scan" where
  "return_scan c items err =
     c\<lparr>ctx_done := True, results_closed := True, errors_closed := True,
       coordinator := Returned items err\<rparr>"

text \<open>
  One step of the coordinator. A send on \<open>jobs\<close> needs room in the buffer. In the
  collecting loop this step is the case \<open>item := <-results\<close> of the \<open>select\<close>; the
  case \<open>err = <-errors\<close> is the step of the worker that sends. \<open>None\<close>: the
  coordinator is blocked, or has returned.
\<close>

definition coordinator_step :: "string \<Rightarrow> scan \<Rightarrow> scan option" where
  "coordinator_step user c =
     (case coordinator c of
        Enqueuing [] \<Rightarrow> Some (c\<lparr>jobs_closed := True, coordinator := Collecting 0 []\<rparr>)
      | Enqueuing (repository # rest) \<Rightarrow>
          if length (jobs c) < jobsCount c
          then Some (c\<lparr>jobs := jobs c @ [repository], coordinator := Enqueuing rest\<rparr>)
          else None
      | Collecting i items \<Rightarrow>
          if i < jobsCount c then
            (case results c of
               [] \<Rightarrow> None
             | item # rest \<Rightarrow>
                 Some (c\<lparr>results := rest, coordinator := Collecting (i + 1) (items @ [item]),
                         drained := drained c @ [item]\<rparr>))
          else Some (return_scan c (sortResultItems items) None)
      | Returned items err \<Rightarrow> None)"

text \<open>
  One step of worker n. The channel \<open>errors\<close> has no buffer: the send of a worker and
  the receive of the coordinator are one step, possible only while the coordinator is at
  its \<open>select\<close>; the coordinator then wraps the error and returns with the items it
  has collected so far in the named result. A call of GetAllReleases is one step: the
  forge answers by URL alone, so the requests of other workers do not change what it
  returns. A call that never returns leaves the worker without a step.
\<close>

definition worker_step :: "world \<Rightarrow> Scanner \<Rightarrow> string \<Rightarrow> scan \<Rightarrow> nat \<Rightarrow> scan option" where
  "worker_step w s user c n =
     (if length (workers c) \<le> n then None
      else
        (case workers c ! n of
           Waiting \<Rightarrow>
             (case jobs c of
                repository # rest \<Rightarrow>
                  Some (c\<lparr>jobs := rest, workers := (workers c)[n := Received repository]\<rparr>)
              | [] \<Rightarrow>
                  if jobs_closed c then Some (c\<lparr>workers := (workers c)[n := Exited]\<rparr>)
                  else None)
         | Received repository \<Rightarrow>
             if ctx_done c then Some (c\<lparr>workers := (workers c)[n := Exited]\<rparr>)
             else Some (c\<lparr>workers := (workers c)[n := Fetching repository]\<rparr>)
         | Fetching repository \<Rightarrow>
             (case GetAllReleases w s user (Name repository) of
                None \<Rightarrow> None
              | Some (urls, releases, Some err) \<Rightarrow>
                  Some (c\<lparr>requests := requests c @ urls,
                          failures := failures c @ [(repository, err)],
                          workers := (workers c)[n := SendingError err]\<rparr>)
              | Some (urls, releases, None) \<Rightarrow>
                  Some (c\<lparr>requests := requests c @ urls,
                          workers := (workers c)[n := SendingResult
                            \<lparr>Repository = repository, Releases = releases\<rparr>]\<rparr>))
         | SendingError err \<Rightarrow>
             if errors_closed c then Some (c\<lparr>workers := (workers c)[n := Panicked]\<rparr>)
             else
               (case coordinator c of
                  Collecting i items \<Rightarrow>
                    if i < jobsCount c
                    then Some ((return_scan c items (Some (AccountScanFailed user err)))
                                 \<lparr>workers := (workers c)[n := Cancelling]\<rparr>)
                    else None
                | _ \<Rightarrow> None)
         | Cancelling \<Rightarrow> Some (c\<lparr>ctx_done := True, workers := (workers c)[n := Exited]\<rparr>)
         | SendingResult item \<Rightarrow>
             if results_closed c then Some (c\<lparr>workers := (workers c)[n := Panicked]\<rparr>)
             else if length (results c) < jobsCount c
             then Some (c\<lparr>results := results c @ [item], workers := (workers c)[n := Waiting]\<rparr>)
             else None
         | Exited \<Rightarrow> None
         | Panicked \<Rightarrow> None))"

text \<open>
  Thread 0 is the coordinator and thread n + 1 is worker n. A schedule lists the threads
  that take the successive steps; it is not a run when it names a thread that cannot
  move.
\<close>

definition step :: "world \<Rightarrow> Scanner \<Rightarrow> string \<Rightarrow> scan \<Rightarrow> nat \<Rightarrow> scan option" where
  "step w s user c thread =
     (case thread of 0 \<Rightarrow> coordinator_step user c | Suc n \<Rightarrow> worker_step w s user c n)"

fun exec :: "world \<Rightarrow> Scanner \<Rightarrow> string \<Rightarrow> scan \<Rightarrow> nat list \<Rightarrow> scan option" where
  "exec w s user c [] = Some c"
| "exec w s user c (thread # schedule) =
     (case step w s user c thread of
        None \<Rightarrow> None
      | Some c' \<Rightarrow> exec w s user c' schedule)"

text \<open>
  The state when the workers have been started (\<open>launch\<close>), and the state of the
  \<open>return\<close> of line 48, before any channel is made (\<open>early_return\<close>). The listing may
  not return at all. \<open>ScanRepositories\<close> gives the two values returned when the
  coordinator has returned under the schedule.
\<close>

definition launch :: "Repository list \<Rightarrow> string list \<Rightarrow> scan" where
  "launch repositories urls =
     \<lparr>jobsCount = length repositories, jobs = [], jobs_closed = False, results = [],
      results_closed = False, errors_closed = False, ctx_done = False,
      workers = replicate (if length repositories < maxWorkersCount then length repositories
                           else maxWorkersCount) Waiting,
      coordinator = Enqueuing repositories, requests = urls, failures = [], drained = []\<rparr>"

definition early_return :: "error \<Rightarrow> string list \<Rightarrow> scan" where
  "early_return err urls =
     \<lparr>jobsCount = 0, jobs = [], jobs_closed = False, results = [],
      results_closed = False, errors_closed = False, ctx_done = False,
      workers = [], coordinator = Returned [] (Some err), requests = urls, failures = [],
      drained = []\<rparr>"

definition ScanRepositories_start :: "world \<Rightarrow> Scanner \<Rightarrow> string \<Rightarrow> scan option" where
  "ScanRepositories_start w s user =
     (case GetAllRepositories w s user of
        None \<Rightarrow> None
      | Some (urls, repositories, Some err) \<Rightarrow> Some (early_return err urls)
      | Some (urls, repositories, None) \<Rightarrow> Some (launch repositories urls))"

definition ScanRepositories ::
  "world \<Rightarrow> Scanner \<Rightarrow> string \<Rightarrow> nat list \<Rightarrow> (ResultItem list \<times> error option) option" where
  "ScanRepositories w s user schedule =
     (case ScanRepositories_start w s user of
        None \<Rightarrow> None
      | Some c \<Rightarrow>
          (case exec w s user c schedule of
             None \<Rightarrow> None
           | Some c' \<Rightarrow>
               (case coordinator c' of
                  Returned items err \<Rightarrow> Some (items, err)
                | _ \<Rightarrow> None)))"

section \<open>Notions used in the statements\<close>

text \<open>The forge serves a page: it answers 200 with a body that decodes to the chunk.\<close>

definition serves_repositories :: "world \<Rightarrow> Scanner \<Rightarrow> string \<Rightarrow> int \<Rightarrow> Repository list \<Rightarrow> bool" where
  "serves_repositories w s user page chunk =
     (case http_Get w (repositories_url s user page) of
        Inl err \<Rightarrow> False
      | Inr response \<Rightarrow>
          StatusCode response = StatusOK \<and> Decode_Repositories w (Body response) = Inr chunk)"

definition serves_releases ::
  "world \<Rightarrow> Scanner \<Rightarrow> string \<Rightarrow> string \<Rightarrow> int \<Rightarrow> Release list \<Rightarrow> bool" where
  "serves_releases w s user repository page chunk =
     (case http_Get w (releases_url s user repository page) of
        Inl err \<Rightarrow> False
      | Inr response \<Rightarrow>
          StatusCode response = StatusOK \<and> Decode_Releases w (Body response) = Inr chunk)"

text \<open>
  What the release listing of a repository returns, the item a worker builds from it,
  and whether the listing succeeds or fails with a given error.
\<close>

definition releases_of :: "world \<Rightarrow> Scanner \<Rightarrow> string \<Rightarrow> Repository \<Rightarrow> Release list" where
  "releases_of w s user r =
     (case GetAllReleases w s user (Name r) of
        Some (urls, releases, err) \<Rightarrow> releases
      | None \<Rightarrow> [])"

definition item_of :: "world \<Rightarrow> Scanner \<Rightarrow> string \<Rightarrow> Repository \<Rightarrow> ResultItem" where
  "item_of w s user r = \<lparr>Repository = r, Releases = releases_of w s user r\<rparr>"

definition fetch_ok :: "world \<Rightarrow> Scanner \<Rightarrow> string \<Rightarrow> Repository \<Rightarrow> bool" where
  "fetch_ok w s user r =
     (case GetAllReleases w s user (Name r) of
        Some (urls, releases, None) \<Rightarrow> True
      | _ \<Rightarrow> False)"

definition fetch_failed :: "world \<Rightarrow> Scanner \<Rightarrow> string \<Rightarrow> Repository \<Rightarrow> error \<Rightarrow> bool" where
  "fetch_failed w s user r err =
     (case GetAllReleases w s user (Name r) of
        Some (urls, releases, Some err') \<Rightarrow> err' = err
      | _ \<Rightarrow> False)"

subsection \<open>The invariant of a scan\<close>

text \<open>
  Where the repositories of the listing are while the coordinator has not returned: still
  to be sent, in the channel \<open>jobs\<close>, held by a worker, delivered as an item, or
  dropped by a listing that failed.
\<close>

fun held :: "worker \<Rightarrow> Repository list" where
  "held (Received r) = [r]"
| "held (Fetching r) = [r]"
| "held (SendingResult item) = [Repository item]"
| "held _ = []"

fun sending :: "worker \<Rightarrow> error list" where
  "sending (SendingError err) = [err]"
| "sending _ = []"

fun produced :: "worker \<Rightarrow> ResultItem list" where
  "produced (SendingResult item) = [item]"
| "produced _ = []"

fun pending :: "coordinator \<Rightarrow> Repository list" where
  "pending (Enqueuing rs) = rs"
| "pending _ = []"

fun collected :: "coordinator \<Rightarrow> ResultItem list" where
  "collected (Collecting i items) = items"
| "collected _ = []"

fun has_returned :: "coordinator \<Rightarrow> bool" where
  "has_returned (Returned items err) = True"
| "has_returned _ = False"

definition accounted :: "scan \<Rightarrow> Repository multiset" where
  "accounted c =
     mset (pending (coordinator c)) + mset (jobs c) + mset (concat (map held (workers c)))
       + mset (map Repository (results c))
       + mset (map Repository (collected (coordinator c)))
       + mset (map fst (failures c))"

definition delivered :: "scan \<Rightarrow> ResultItem list" where
  "delivered c = results c @ collected (coordinator c) @ concat (map produced (workers c))"

definition running_inv :: "Repository list \<Rightarrow> scan \<Rightarrow> bool" where
  "running_inv repositories c \<longleftrightarrow>
     accounted c = mset repositories
     \<and> \<not> ctx_done c \<and> \<not> results_closed c \<and> \<not> errors_closed c
     \<and> Cancelling \<notin> set (workers c) \<and> Panicked \<notin> set (workers c)
     \<and> (Exited \<in> set (workers c) \<longrightarrow> jobs c = [] \<and> jobs_closed c)
     \<and> (jobs_closed c \<longleftrightarrow> (\<forall>rs. coordinator c \<noteq> Enqueuing rs))
     \<and> mset (concat (map sending (workers c))) = mset (map snd (failures c))
     \<and> (\<forall>i items. coordinator c = Collecting i items \<longrightarrow> i = length items)
     \<and> drained c = collected (coordinator c)"

definition static_inv :: "world \<Rightarrow> Scanner \<Rightarrow> string \<Rightarrow> Repository list \<Rightarrow> scan \<Rightarrow> bool" where
  "static_inv w s user repositories c \<longleftrightarrow>
     jobsCount c = length repositories
     \<and> length (workers c) = min (length repositories) maxWorkersCount
     \<and> (\<forall>item\<in>set (delivered c).
           fetch_ok w s user (Repository item) \<and> item = item_of w s user (Repository item))
     \<and> (\<forall>(r, err)\<in>set (failures c). fetch_failed w s user r err)"

definition returned_inv :: "world \<Rightarrow> Scanner \<Rightarrow> string \<Rightarrow> Repository list \<Rightarrow> scan \<Rightarrow> bool" where
  "returned_inv w s user repositories c \<longleftrightarrow>
     (case coordinator c of
        Returned items None \<Rightarrow>
          items = sortResultItems (drained c)
          \<and> mset (drained c) = mset (map (item_of w s user) repositories)
          \<and> (\<forall>r\<in>set repositories. fetch_ok w s user r)
          \<and> failures c = [] \<and> jobs c = [] \<and> set (workers c) \<subseteq> {Waiting, Exited}
      | Returned items (Some err) \<Rightarrow>
          (\<exists>(r, e)\<in>set (failures c). r \<in> set repositories \<and> err = AccountScanFailed user e)
      | _ \<Rightarrow> running_inv repositories c)"

definition scan_inv :: "world \<Rightarrow> Scanner \<Rightarrow> string \<Rightarrow> Repository list \<Rightarrow> scan \<Rightarrow> bool" where
  "scan_inv w s user repositories c \<longleftrightarrow>
     static_inv w s user repositories c \<and> returned_inv w s user repositories c"




section \<open>Stub forges\<close>

text \<open>
  Forges in the manner of the handlers of \<open>scanner_test.go\<close>: a table from URLs to
  answers, and tables from the bytes of a body to what they decode to. A URL outside the
  table is a transport error. The bytes in a table stand for a complete JSON value, which
  the decoder of a 200 body returns without reading on; other bytes give the read error
  of the body, if it has one, or else a syntax error.
\<close>

definition stub_world ::
  "(string \<times> (error + response)) list \<Rightarrow> (string \<times> Repository list) list
     \<Rightarrow> (string \<times> Release list) list \<Rightarrow> (string \<times> string option) list \<Rightarrow> world" where
  "stub_world routes repositories releases messages =
     \<lparr>http_Get = (\<lambda>url. case map_of routes url of
                      None \<Rightarrow> Inl ''connection refused''
                    | Some answer \<Rightarrow> answer),
      Decode_Repositories = (\<lambda>(bytes, read_error).
                      case map_of repositories bytes of
                        Some rs \<Rightarrow> Inr rs
                      | None \<Rightarrow>
                          (case read_error of
                             Some err \<Rightarrow> Inl err
                           | None \<Rightarrow> Inl ''invalid character'')),
      Decode_Releases = (\<lambda>(bytes, read_error).
                      case map_of releases bytes of
                        Some rs \<Rightarrow> Inr rs
                      | None \<Rightarrow>
                          (case read_error of
                             Some err \<Rightarrow> Inl err
                           | None \<Rightarrow> Inl ''invalid character'')),
      Unmarshal_message = (\<lambda>bytes. case map_of messages bytes of
                      None \<Rightarrow> Inl ''invalid character''
                    | Some stored \<Rightarrow> Inr stored)\<rparr>"

definition ok :: "string \<Rightarrow> error + response" where
  "ok bytes = Inr \<lparr>StatusCode = 200, Status = ''200 OK'', Body = (bytes, None)\<rparr>"

definition forbidden :: "string \<Rightarrow> error + response" where
  "forbidden bytes = Inr \<lparr>StatusCode = 403, Status = ''403 Forbidden'', Body = (bytes, None)\<rparr>"

definition repo :: "string \<Rightarrow> Repository" where
  "repo name = \<lparr>FullName = ''test/'' @ name, Name = name\<rparr>"

definition rel :: "string \<Rightarrow> Release" where
  "rel name = \<lparr>Release.Name = name\<rparr>"

definition scanner3 :: Scanner where
  "scanner3 = \<lparr>BaseUrl = ''http://forge'', PerPage = 3\<rparr>"

definition zero_scanner :: Scanner where
  "zero_scanner = \<lparr>BaseUrl = ''http://forge'', PerPage = 0\<rparr>"

definition paged_world :: world where
  "paged_world = stub_world
     [(''http://forge/users/test/repos?per_page=3&page=1'', ok ''P1''),
      (''http://forge/users/test/repos?per_page=3&page=2'', ok ''P2''),
      (''http://forge/repos/test/test/releases?per_page=3&page=1'', ok ''R1''),
      (''http://forge/repos/test/test/releases?per_page=3&page=2'', ok ''R2''),
      (''http://forge/users/idle/repos?per_page=3&page=1'', ok ''E''),
      (''http://forge/repos/test/idle/releases?per_page=3&page=1'', ok ''E'')]
     [(''P1'', [repo ''repo1'', repo ''repo2'', repo ''repo3'']),
      (''P2'', [repo ''repo4'', repo ''repo5'']),
      (''E'', [])]
     [(''R1'', [rel ''repo5'', rel ''repo4'', rel ''repo3'']),
      (''R2'', [rel ''repo2'', rel ''repo1'']),
      (''E'', [])]
     []"

definition broken_world :: world where
  "broken_world = stub_world
     [(''http://forge/users/test/repos?per_page=3&page=1'', ok ''P1''),
      (''http://forge/users/test/repos?per_page=3&page=2'', forbidden ''M''),
      (''http://forge/repos/test/test/releases?per_page=3&page=1'', ok ''R1''),
      (''http://forge/repos/test/test/releases?per_page=3&page=2'', forbidden ''X''),
      (''http://forge/users/ghost/repos?per_page=3&page=1'',
         Inr \<lparr>StatusCode = 404, Status = ''404 Not Found'', Body = (''N'', None)\<rparr>)]
     [(''P1'', [repo ''repo1'', repo ''repo2'', repo ''repo3''])]
     [(''R1'', [rel ''repo5'', rel ''repo4'', rel ''repo3''])]
     [(''M'', Some ''forbidden''), (''N'', Some ''Not Found'')]"

definition happy_world :: world where
  "happy_world = stub_world
     [(''http://forge/users/test/repos?per_page=3&page=1'', ok ''L''),
      (''http://forge/repos/test/a/releases?per_page=3&page=1'', ok ''A''),
      (''http://forge/repos/test/b/releases?per_page=3&page=1'', ok ''B'')]
     [(''L'', [repo ''b'', repo ''a''])]
     [(''A'', [rel ''v1'']), (''B'', [])]
     []"

definition partial_world :: world where
  "partial_world = stub_world
     [(''http://forge/users/test/repos?per_page=3&page=1'', ok ''L''),
      (''http://forge/repos/test/a/releases?per_page=3&page=1'', ok ''A''),
      (''http://forge/repos/test/b/releases?per_page=3&page=1'', forbidden ''M'')]
     [(''L'', [repo ''a'', repo ''b''])]
     [(''A'', [rel ''v1''])]
     [(''M'', Some ''forbidden'')]"

definition twin_world :: world where
  "twin_world = stub_world
     [(''http://forge/users/test/repos?per_page=3&page=1'', ok ''L''),
      (''http://forge/repos/test/a/releases?per_page=3&page=1'', ok ''A''),
      (''http://forge/repos/test/b/releases?per_page=3&page=1'', ok ''B'')]
     [(''L'', [\<lparr>FullName = ''test/x'', Name = ''a''\<rparr>, \<lparr>FullName = ''test/x'', Name = ''b''\<rparr>])]
     [(''A'', [rel ''v1'']), (''B'', [])]
     []"


definition offline_world :: world where
  "offline_world = stub_world [] [] [] []"

definition silent_world :: world where
  "silent_world = stub_world
     [(''http://forge/users/test/repos?per_page=3&page=1'', forbidden ''{}''),
      (''http://forge/repos/test/test/releases?per_page=3&page=1'', forbidden ''{}'')]
     []
     []
     [(''{}'', None), (''null'', None)]"

definition default_world :: world where
  "default_world = stub_world
     [(''http://forge/users/test/repos?per_page=100&page=1'', ok ''P1''),
      (''http://forge/repos/test/test/releases?per_page=100&page=1'', ok ''R1'')]
     [(''P1'', [repo ''repo1'', repo ''repo2'', repo ''repo3''])]
     [(''R1'', [rel ''repo5'', rel ''repo4'', rel ''repo3''])]
     []"

section \<open>Properties of the catalog client and of the listers\<close>

declare fmt_nat.simps [simp del]

lemma getPerPage_pos: "0 < getPerPage s"
  by (simp add: getPerPage_def perPage_def)

lemma GetRepositoriesPerPage_served:
  "user \<noteq> [] \<Longrightarrow> 1 \<le> page \<Longrightarrow> serves_repositories w s user page chunk \<Longrightarrow>
   GetRepositoriesPerPage w s user page = ([repositories_url s user page], chunk, None)"
  by (auto simp: GetRepositoriesPerPage_def serves_repositories_def checkPage_def checkUser_def
        StatusOK_def StatusNotFound_def split: sum.splits)

lemma GetReleasesPerPage_served:
  "user \<noteq> [] \<Longrightarrow> repository \<noteq> [] \<Longrightarrow> 1 \<le> page \<Longrightarrow>
   serves_releases w s user repository page chunk \<Longrightarrow>
   GetReleasesPerPage w s user repository page =
     ([releases_url s user repository page], chunk, None)"
  by (auto simp: GetReleasesPerPage_def serves_releases_def checkPage_def checkUser_def
        checkRepository_def StatusOK_def split: sum.splits)

lemma upto_shift: "[page..page + (1 + int m)] = page # [page + 1..page + 1 + int m]"
  by (subst upto_rec1) (simp_all add: add.assoc)

lemma GetAllRepositories_loop_pages:
  assumes "\<And>i. i < m \<Longrightarrow>
       GetRepositoriesPerPage w s user (page + int i) = ([url (page + int i)], chunk (page + int i), None)
       \<and> \<not> int (length (chunk (page + int i))) < getPerPage s"
   and "GetRepositoriesPerPage w s user (page + int m) = ([url (page + int m)], chunk (page + int m), None)"
   and "int (length (chunk (page + int m))) < getPerPage s"
  shows "GetAllRepositories_loop w s user page acc urls =
     Some (urls @ map url [page..page + int m], acc @ concat (map chunk [page..page + int m]), None)"
  using assms
proof (induction m arbitrary: page acc urls)
  case 0
  then show ?case
    by (subst GetAllRepositories_loop.simps) simp
next
  case (Suc m)
  have first: "GetRepositoriesPerPage w s user page = ([url page], chunk page, None)"
    "\<not> int (length (chunk page)) < getPerPage s"
    using Suc.prems(1) [of 0] by simp_all
  have rest: "GetAllRepositories_loop w s user (page + 1) (acc @ chunk page) (urls @ [url page]) =
     Some ((urls @ [url page]) @ map url [page + 1..page + 1 + int m],
           (acc @ chunk page) @ concat (map chunk [page + 1..page + 1 + int m]), None)"
  proof (rule Suc.IH)
    fix i assume "i < m"
    then show "GetRepositoriesPerPage w s user (page + 1 + int i) = ([url (page + 1 + int i)], chunk (page + 1 + int i), None)
       \<and> \<not> int (length (chunk (page + 1 + int i))) < getPerPage s"
      using Suc.prems(1) [of "Suc i"] by (simp add: add.assoc)
  next
    show "GetRepositoriesPerPage w s user (page + 1 + int m) = ([url (page + 1 + int m)], chunk (page + 1 + int m), None)"
      using Suc.prems(2) by (simp add: add.assoc)
    show "int (length (chunk (page + 1 + int m))) < getPerPage s"
      using Suc.prems(3) by (simp add: add.assoc)
  qed
  show ?case
    by (subst GetAllRepositories_loop.simps) (simp add: first rest upto_shift)
qed

lemma GetAllReleases_loop_pages:
  assumes "\<And>i. i < m \<Longrightarrow>
       GetReleasesPerPage w s user repository (page + int i) = ([url (page + int i)], chunk (page + int i), None)
       \<and> \<not> int (length (chunk (page + int i))) < getPerPage s"
   and "GetReleasesPerPage w s user repository (page + int m) = ([url (page + int m)], chunk (page + int m), None)"
   and "int (length (chunk (page + int m))) < getPerPage s"
  shows "GetAllReleases_loop w s user repository page acc urls =
     Some (urls @ map url [page..page + int m], acc @ concat (map chunk [page..page + int m]), None)"
  using assms
proof (induction m arbitrary: page acc urls)
  case 0
  then show ?case
    by (subst GetAllReleases_loop.simps) simp
next
  case (Suc m)
  have first: "GetReleasesPerPage w s user repository page = ([url page], chunk page, None)"
    "\<not> int (length (chunk page)) < getPerPage s"
    using Suc.prems(1) [of 0] by simp_all
  have rest: "GetAllReleases_loop w s user repository (page + 1) (acc @ chunk page) (urls @ [url page]) =
     Some ((urls @ [url page]) @ map url [page + 1..page + 1 + int m],
           (acc @ chunk page) @ concat (map chunk [page + 1..page + 1 + int m]), None)"
  proof (rule Suc.IH)
    fix i assume "i < m"
    then show "GetReleasesPerPage w s user repository (page + 1 + int i) = ([url (page + 1 + int i)], chunk (page + 1 + int i), None)
       \<and> \<not> int (length (chunk (page + 1 + int i))) < getPerPage s"
      using Suc.prems(1) [of "Suc i"] by (simp add: add.assoc)
  next
    show "GetReleasesPerPage w s user repository (page + 1 + int m) = ([url (page + 1 + int m)], chunk (page + 1 + int m), None)"
      using Suc.prems(2) by (simp add: add.assoc)
    show "int (length (chunk (page + 1 + int m))) < getPerPage s"
      using Suc.prems(3) by (simp add: add.assoc)
  qed
  show ?case
    by (subst GetAllReleases_loop.simps) (simp add: first rest upto_shift)
qed

lemma GetAllRepositories_pages:
  assumes user: "user \<noteq> []" and k: "1 \<le> k"
    and served: "\<forall>i\<in>{1..k}. serves_repositories w s user i (chunk i)"
    and full: "\<forall>i\<in>{1..<k}. int (length (chunk i)) = getPerPage s"
    and short: "int (length (chunk k)) < getPerPage s"
  shows "GetAllRepositories w s user =
     Some (map (repositories_url s user) [1..k], concat (map chunk [1..k]), None)"
proof -
  define m where "m = nat (k - 1)"
  have km: "k = 1 + int m" using k by (simp add: m_def)
  have "GetAllRepositories_loop w s user 1 [] [] =
     Some ([] @ map (repositories_url s user) [1..1 + int m], [] @ concat (map chunk [1..1 + int m]), None)"
  proof (rule GetAllRepositories_loop_pages)
    fix i assume "i < m"
    then have "1 + int i \<in> {1..k}" "1 + int i \<in> {1..<k}" by (simp_all add: km)
    then show "GetRepositoriesPerPage w s user (1 + int i) =
         ([repositories_url s user (1 + int i)], chunk (1 + int i), None)
       \<and> \<not> int (length (chunk (1 + int i))) < getPerPage s"
      using served full user by (simp add: GetRepositoriesPerPage_served)
  next
    show "GetRepositoriesPerPage w s user (1 + int m) =
        ([repositories_url s user (1 + int m)], chunk (1 + int m), None)"
      using served user k by (simp add: GetRepositoriesPerPage_served km [symmetric])
    show "int (length (chunk (1 + int m))) < getPerPage s"
      using short by (simp add: km)
  qed
  then show ?thesis by (simp add: GetAllRepositories_def km)
qed

lemma GetAllReleases_pages:
  assumes user: "user \<noteq> []" and repo: "repository \<noteq> []" and k: "1 \<le> k"
    and served: "\<forall>i\<in>{1..k}. serves_releases w s user repository i (chunk i)"
    and full: "\<forall>i\<in>{1..<k}. int (length (chunk i)) = getPerPage s"
    and short: "int (length (chunk k)) < getPerPage s"
  shows "GetAllReleases w s user repository =
     Some (map (releases_url s user repository) [1..k], concat (map chunk [1..k]), None)"
proof -
  define m where "m = nat (k - 1)"
  have km: "k = 1 + int m" using k by (simp add: m_def)
  have "GetAllReleases_loop w s user repository 1 [] [] =
     Some ([] @ map (releases_url s user repository) [1..1 + int m],
           [] @ concat (map chunk [1..1 + int m]), None)"
  proof (rule GetAllReleases_loop_pages)
    fix i assume "i < m"
    then have "1 + int i \<in> {1..k}" "1 + int i \<in> {1..<k}" by (simp_all add: km)
    then show "GetReleasesPerPage w s user repository (1 + int i) =
         ([releases_url s user repository (1 + int i)], chunk (1 + int i), None)
       \<and> \<not> int (length (chunk (1 + int i))) < getPerPage s"
      using served full user repo by (simp add: GetReleasesPerPage_served)
  next
    show "GetReleasesPerPage w s user repository (1 + int m) =
        ([releases_url s user repository (1 + int m)], chunk (1 + int m), None)"
      using served user repo k by (simp add: GetReleasesPerPage_served km [symmetric])
    show "int (length (chunk (1 + int m))) < getPerPage s"
      using short by (simp add: km)
  qed
  then show ?thesis by (simp add: GetAllReleases_def km)
qed

text \<open>
  Claim C3. When the forge answers pages 1 to k of the repository list, every page before
  the k-th holding exactly the effective page size and the k-th holding fewer,
  GetAllRepositories requests exactly the pages 1 to k, in this order, and returns the k
  chunks concatenated in page order; when the first chunk is empty it requests page 1 only
  and returns the empty sequence. GetAllReleases does the same for the releases of one
  repository. The account name (and the repository name) is not empty, as the listers
  require.
\<close>
theorem pagination_contract:
  "(user \<noteq> [] \<and> 1 \<le> k
      \<and> (\<forall>i\<in>{1..k}. serves_repositories w s user i (chunk i))
      \<and> (\<forall>i\<in>{1..<k}. int (length (chunk i)) = getPerPage s)
      \<and> int (length (chunk k)) < getPerPage s
    \<longrightarrow> GetAllRepositories w s user =
          Some (map (repositories_url s user) [1..k], concat (map chunk [1..k]), None))
   \<and> (user \<noteq> [] \<and> repository \<noteq> [] \<and> 1 \<le> k
      \<and> (\<forall>i\<in>{1..k}. serves_releases w s user repository i (rchunk i))
      \<and> (\<forall>i\<in>{1..<k}. int (length (rchunk i)) = getPerPage s)
      \<and> int (length (rchunk k)) < getPerPage s
    \<longrightarrow> GetAllReleases w s user repository =
          Some (map (releases_url s user repository) [1..k], concat (map rchunk [1..k]), None))
   \<and> (user \<noteq> [] \<and> serves_repositories w s user 1 []
    \<longrightarrow> GetAllRepositories w s user = Some ([repositories_url s user 1], [], None))
   \<and> (user \<noteq> [] \<and> repository \<noteq> [] \<and> serves_releases w s user repository 1 []
    \<longrightarrow> GetAllReleases w s user repository =
          Some ([releases_url s user repository 1], [], None))"
proof (intro conjI impI)
  assume "user \<noteq> [] \<and> 1 \<le> k
      \<and> (\<forall>i\<in>{1..k}. serves_repositories w s user i (chunk i))
      \<and> (\<forall>i\<in>{1..<k}. int (length (chunk i)) = getPerPage s)
      \<and> int (length (chunk k)) < getPerPage s"
  then show "GetAllRepositories w s user =
          Some (map (repositories_url s user) [1..k], concat (map chunk [1..k]), None)"
    by (intro GetAllRepositories_pages) simp_all
next
  assume "user \<noteq> [] \<and> repository \<noteq> [] \<and> 1 \<le> k
      \<and> (\<forall>i\<in>{1..k}. serves_releases w s user repository i (rchunk i))
      \<and> (\<forall>i\<in>{1..<k}. int (length (rchunk i)) = getPerPage s)
      \<and> int (length (rchunk k)) < getPerPage s"
  then show "GetAllReleases w s user repository =
          Some (map (releases_url s user repository) [1..k], concat (map rchunk [1..k]), None)"
    by (intro GetAllReleases_pages) simp_all
next
  assume a: "user \<noteq> [] \<and> serves_repositories w s user 1 []"
  have "GetAllRepositories w s user =
     Some (map (repositories_url s user) [1..1], concat (map (\<lambda>i. []) [1..(1::int)]), None)"
    using a by (intro GetAllRepositories_pages) (simp_all add: getPerPage_pos)
  then show "GetAllRepositories w s user = Some ([repositories_url s user 1], [], None)"
    by simp
next
  assume a: "user \<noteq> [] \<and> repository \<noteq> [] \<and> serves_releases w s user repository 1 []"
  have "GetAllReleases w s user repository =
     Some (map (releases_url s user repository) [1..1], concat (map (\<lambda>i. []) [1..(1::int)]), None)"
    using a by (intro GetAllReleases_pages) (simp_all add: getPerPage_pos)
  then show "GetAllReleases w s user repository =
     Some ([releases_url s user repository 1], [], None)"
    by simp
qed

lemmas eval_defs = stub_world_def ok_def forbidden_def repo_def rel_def scanner3_def
  repositories_url_def releases_url_def getPerPage_def perPage_def fmt_d_def fmt_nat.simps
  serves_repositories_def serves_releases_def StatusOK_def StatusNotFound_def

theorem pagination_contract_witness:
  "GetAllRepositories paged_world scanner3 ''test'' =
     Some ([''http://forge/users/test/repos?per_page=3&page=1'',
            ''http://forge/users/test/repos?per_page=3&page=2''],
           [repo ''repo1'', repo ''repo2'', repo ''repo3'', repo ''repo4'', repo ''repo5''], None)
   \<and> GetAllReleases paged_world scanner3 ''test'' ''test'' =
     Some ([''http://forge/repos/test/test/releases?per_page=3&page=1'',
            ''http://forge/repos/test/test/releases?per_page=3&page=2''],
           [rel ''repo5'', rel ''repo4'', rel ''repo3'', rel ''repo2'', rel ''repo1''], None)"
proof -
  let ?chunk = "\<lambda>i::int. if i = 1 then [repo ''repo1'', repo ''repo2'', repo ''repo3'']
           else [repo ''repo4'', repo ''repo5'']"
  let ?rchunk = "\<lambda>i::int. if i = 1 then [rel ''repo5'', rel ''repo4'', rel ''repo3'']
           else [rel ''repo2'', rel ''repo1'']"
  have ivl: "{1..2::int} = {1, 2}" "{1..<2::int} = {1}"
    by auto
  have upto: "[1..2::int] = [1, 2]"
    by (simp add: upto.simps)
  have args: "''test'' \<noteq> []" "1 \<le> (2::int)"
    by simp_all
  have served: "\<forall>i\<in>{1..2}. serves_repositories paged_world scanner3 ''test'' i (?chunk i)"
    "\<forall>i\<in>{1..2}. serves_releases paged_world scanner3 ''test'' ''test'' i (?rchunk i)"
    by (simp_all add: ivl paged_world_def eval_defs)
  have sizes: "\<forall>i\<in>{1..<2}. int (length (?chunk i)) = getPerPage scanner3"
    "int (length (?chunk 2)) < getPerPage scanner3"
    "\<forall>i\<in>{1..<2}. int (length (?rchunk i)) = getPerPage scanner3"
    "int (length (?rchunk 2)) < getPerPage scanner3"
    by (simp_all add: ivl scanner3_def getPerPage_def)
  have "GetAllRepositories paged_world scanner3 ''test'' =
      Some (map (repositories_url scanner3 ''test'') [1..2], concat (map ?chunk [1..2]), None)
    \<and> GetAllReleases paged_world scanner3 ''test'' ''test'' =
      Some (map (releases_url scanner3 ''test'' ''test'') [1..2], concat (map ?rchunk [1..2]), None)"
    using pagination_contract [of "''test''" 2 paged_world scanner3 ?chunk "''test''" ?rchunk]
      args served sizes
    by blast
  then show ?thesis
    by (simp add: upto eval_defs)
qed

lemma GetAllRepositories_loop_error_nil:
  assumes "GetAllRepositories_loop w s user page acc urls = Some y"
  shows "snd (snd y) \<noteq> None \<longrightarrow> fst (snd y) = []"
  by (rule GetAllRepositories_loop.raw_induct
        [where P = "\<lambda>w s user page acc urls y. snd (snd y) \<noteq> None \<longrightarrow> fst (snd y) = []",
         OF _ assms])
     (auto split: prod.splits option.splits if_splits)

lemma GetAllReleases_loop_error_nil:
  assumes "GetAllReleases_loop w s user repository page acc urls = Some y"
  shows "snd (snd y) \<noteq> None \<longrightarrow> fst (snd y) = []"
  by (rule GetAllReleases_loop.raw_induct
        [where P = "\<lambda>w s user repository page acc urls y.
                      snd (snd y) \<noteq> None \<longrightarrow> fst (snd y) = []",
         OF _ assms])
     (auto split: prod.splits option.splits if_splits)

text \<open>
  Claim C10. Whenever GetAllRepositories or GetAllReleases returns an error, the slice
  returned with it is nil: the pages accumulated by earlier successful requests are not
  returned.
\<close>
theorem listers_no_partial_pages:
  "(GetAllRepositories w s user = Some (urls, repositories, Some err) \<longrightarrow> repositories = [])
   \<and> (GetAllReleases w s user repository = Some (urls', releases, Some err') \<longrightarrow> releases = [])"
  using GetAllRepositories_loop_error_nil [of w s user 1 "[]" "[]" "(urls, repositories, Some err)"]
    GetAllReleases_loop_error_nil [of w s user repository 1 "[]" "[]" "(urls', releases, Some err')"]
  by (simp add: GetAllRepositories_def GetAllReleases_def)

lemma broken_repositories:
  "GetAllRepositories broken_world scanner3 ''test'' =
     Some ([''http://forge/users/test/repos?per_page=3&page=1'',
            ''http://forge/users/test/repos?per_page=3&page=2''], [],
           Some ''could not get repositories for the account test: forbidden'')"
  unfolding GetAllRepositories_def
  apply (subst GetAllRepositories_loop.simps)
  apply (simp add: GetRepositoriesPerPage_def checkPage_def checkUser_def getApiErrorMessage_def
      io_ReadAll_def broken_world_def eval_defs)
  apply (subst GetAllRepositories_loop.simps)
  apply (simp add: GetRepositoriesPerPage_def checkPage_def checkUser_def getApiErrorMessage_def
      io_ReadAll_def broken_world_def eval_defs)
  done

lemma broken_releases:
  "GetAllReleases broken_world scanner3 ''test'' ''test'' =
     Some ([''http://forge/repos/test/test/releases?per_page=3&page=1'',
            ''http://forge/repos/test/test/releases?per_page=3&page=2''], [],
           Some ''could not get releases for the repository test: 403 Forbidden'')"
  unfolding GetAllReleases_def
  apply (subst GetAllReleases_loop.simps)
  apply (simp add: GetReleasesPerPage_def checkPage_def checkUser_def checkRepository_def
      getApiErrorMessage_def io_ReadAll_def broken_world_def eval_defs)
  apply (subst GetAllReleases_loop.simps)
  apply (simp add: GetReleasesPerPage_def checkPage_def checkUser_def checkRepository_def
      getApiErrorMessage_def io_ReadAll_def broken_world_def eval_defs)
  done

theorem listers_no_partial_pages_witness:
  "(\<exists>urls err. GetAllRepositories broken_world scanner3 ''test'' = Some (urls, [], Some err))
   \<and> (\<exists>urls err. GetAllReleases broken_world scanner3 ''test'' ''test'' = Some (urls, [], Some err))"
  using listers_no_partial_pages [of broken_world scanner3 "''test''"
      "[''http://forge/users/test/repos?per_page=3&page=1'',
        ''http://forge/users/test/repos?per_page=3&page=2'']" "[]"
      "''could not get repositories for the account test: forbidden''"
      "''test''"
      "[''http://forge/repos/test/test/releases?per_page=3&page=1'',
        ''http://forge/repos/test/test/releases?per_page=3&page=2'']" "[]"
      "''could not get releases for the repository test: 403 Forbidden''"]
    broken_repositories broken_releases
  by simp

text \<open>
  The error of a response whose status is not 200, for every forge: on the repository
  list a 404 gives "account <account> does not exist"; otherwise the text is the
  endpoint's context followed by the status line when the body cannot be read or
  Unmarshal returns an error, by the message that Unmarshal stored when it stored one,
  and by nothing when it returned no error and stored none.
\<close>

lemma non_200_error_text:
  "(user \<noteq> [] \<and> 1 \<le> page
      \<and> http_Get w (repositories_url s user page) = Inr response
      \<and> StatusCode response \<noteq> 200
    \<longrightarrow> GetRepositoriesPerPage w s user page =
          ([repositories_url s user page], [],
           Some (if StatusCode response = 404 then ''account '' @ user @ '' does not exist''
                 else ''could not get repositories for the account '' @ user @ '': '' @
                   (case Body response of
                      (bytes, Some read_error) \<Rightarrow> Status response
                    | (bytes, None) \<Rightarrow>
                        (case Unmarshal_message w bytes of
                           Inl decode_error \<Rightarrow> Status response
                         | Inr None \<Rightarrow> []
                         | Inr (Some message) \<Rightarrow> message)))))
   \<and> (user \<noteq> [] \<and> repository \<noteq> [] \<and> 1 \<le> page
      \<and> http_Get w (releases_url s user repository page) = Inr response'
      \<and> StatusCode response' \<noteq> 200
    \<longrightarrow> GetReleasesPerPage w s user repository page =
          ([releases_url s user repository page], [],
           Some (''could not get releases for the repository '' @ repository @ '': '' @
                   (case Body response' of
                      (bytes, Some read_error) \<Rightarrow> Status response'
                    | (bytes, None) \<Rightarrow>
                        (case Unmarshal_message w bytes of
                           Inl decode_error \<Rightarrow> Status response'
                         | Inr None \<Rightarrow> []
                         | Inr (Some message) \<Rightarrow> message)))))"
  by (simp add: GetRepositoriesPerPage_def GetReleasesPerPage_def checkPage_def checkUser_def
      checkRepository_def getApiErrorMessage_def io_ReadAll_def StatusOK_def StatusNotFound_def
      split: prod.splits option.splits sum.splits)

lemma non_200_examples:
  "GetRepositoriesPerPage broken_world scanner3 ''ghost'' 1 =
     ([''http://forge/users/ghost/repos?per_page=3&page=1''], [],
      Some ''account ghost does not exist'')
   \<and> GetRepositoriesPerPage broken_world scanner3 ''test'' 2 =
     ([''http://forge/users/test/repos?per_page=3&page=2''], [],
      Some ''could not get repositories for the account test: forbidden'')
   \<and> GetReleasesPerPage broken_world scanner3 ''test'' ''test'' 2 =
     ([''http://forge/repos/test/test/releases?per_page=3&page=2''], [],
      Some ''could not get releases for the repository test: 403 Forbidden'')"
  by (simp add: GetRepositoriesPerPage_def GetReleasesPerPage_def checkPage_def checkUser_def
      checkRepository_def getApiErrorMessage_def io_ReadAll_def broken_world_def eval_defs)

text \<open>
  Claim C7 fails on the code. A 403 whose body is \<open>{}\<close>, valid JSON without a
  message, unmarshals without error and leaves the field Message at its zero value:
  getApiErrorMessage returns the empty string, and the error of both endpoints ends
  after its context, with neither a message of the body nor the status line
  "403 Forbidden" that the function was given as the default.
\<close>
theorem empty_message_instead_of_status_line:
  "http_Get silent_world ''http://forge/repos/test/test/releases?per_page=3&page=1'' =
     Inr \<lparr>StatusCode = 403, Status = ''403 Forbidden'', Body = (''{}'', None)\<rparr>
   \<and> Unmarshal_message silent_world ''{}'' = Inr None
   \<and> getApiErrorMessage silent_world (''{}'', None) ''403 Forbidden'' = []
   \<and> GetReleasesPerPage silent_world scanner3 ''test'' ''test'' 1 =
     ([''http://forge/repos/test/test/releases?per_page=3&page=1''], [],
      Some ''could not get releases for the repository test: '')
   \<and> GetRepositoriesPerPage silent_world scanner3 ''test'' 1 =
     ([''http://forge/users/test/repos?per_page=3&page=1''], [],
      Some ''could not get repositories for the account test: '')"
  by (simp add: GetRepositoriesPerPage_def GetReleasesPerPage_def checkPage_def checkUser_def
      checkRepository_def getApiErrorMessage_def io_ReadAll_def silent_world_def eval_defs)

text \<open>
  Claim C8. GetRepositoriesPerPage with an empty account name or a page below 1, and
  GetReleasesPerPage with an empty account name, an empty repository name or a page below
  1, return an invalid-argument error, no records, and request no URL.
\<close>
theorem argument_validation:
  "(user = [] \<or> page < 1
    \<longrightarrow> (\<exists>err. GetRepositoriesPerPage w s user page = ([], [], Some err)
          \<and> err \<in> {''page could not be less than 1'', ''user name could not be empty''}))
   \<and> (user = [] \<or> repository = [] \<or> page < 1
    \<longrightarrow> (\<exists>err. GetReleasesPerPage w s user repository page = ([], [], Some err)
          \<and> err \<in> {''page could not be less than 1'', ''user name could not be empty'',
                    ''repository name could not be empty''}))"
  by (simp add: GetRepositoriesPerPage_def GetReleasesPerPage_def checkPage_def checkUser_def
      checkRepository_def)

theorem argument_validation_witness:
  "GetRepositoriesPerPage paged_world scanner3 [] 1 = ([], [], Some ''user name could not be empty'')
   \<and> GetRepositoriesPerPage paged_world scanner3 ''test'' 0 = ([], [], Some ''page could not be less than 1'')
   \<and> GetReleasesPerPage paged_world scanner3 ''test'' [] 1 =
       ([], [], Some ''repository name could not be empty'')
   \<and> GetReleasesPerPage paged_world scanner3 [] ''test'' 1 =
       ([], [], Some ''user name could not be empty'')
   \<and> GetReleasesPerPage paged_world scanner3 ''test'' ''test'' (- 1) =
       ([], [], Some ''page could not be less than 1'')"
  using argument_validation [of "[]" 1 paged_world scanner3 "''test''"]
    argument_validation [of "''test''" 0 paged_world scanner3 "[]"]
    argument_validation [of "''test''" "- 1" paged_world scanner3 "''test''"]
  by (simp add: GetRepositoriesPerPage_def GetReleasesPerPage_def checkPage_def checkUser_def
      checkRepository_def)

lemma GetRepositoriesPerPage_cong:
  assumes "BaseUrl s = BaseUrl s'" "getPerPage s = getPerPage s'"
  shows "GetRepositoriesPerPage w s user page = GetRepositoriesPerPage w s' user page"
proof -
  have url: "repositories_url s user page = repositories_url s' user page"
    using assms by (simp add: repositories_url_def)
  show ?thesis
    unfolding GetRepositoriesPerPage_def url by (rule refl)
qed

lemma GetReleasesPerPage_cong:
  assumes "BaseUrl s = BaseUrl s'" "getPerPage s = getPerPage s'"
  shows "GetReleasesPerPage w s user repository page = GetReleasesPerPage w s' user repository page"
proof -
  have url: "releases_url s user repository page = releases_url s' user repository page"
    using assms by (simp add: releases_url_def)
  show ?thesis
    unfolding GetReleasesPerPage_def url by (rule refl)
qed

lemma GetAllRepositories_loop_mono:
  assumes same: "BaseUrl s = BaseUrl s'" "getPerPage s = getPerPage s'"
    and run: "GetAllRepositories_loop w s user page acc urls = Some y"
  shows "GetAllRepositories_loop w s' user page acc urls = Some y"
proof -
  have "s = s \<longrightarrow> GetAllRepositories_loop w s' user page acc urls = Some y"
  proof (rule GetAllRepositories_loop.raw_induct
        [where P = "\<lambda>w s0 user page acc urls y.
            s0 = s \<longrightarrow> GetAllRepositories_loop w s' user page acc urls = Some y", OF _ run])
    fix loop w s0 user page acc urls y
    assume IH: "\<And>w s0 user page acc urls y. loop w s0 user page acc urls = Some y \<Longrightarrow>
        s0 = s \<longrightarrow> GetAllRepositories_loop w s' user page acc urls = Some y"
    and body: "(case GetRepositoriesPerPage w s0 user page of
        (reqs, repositoriesChunk, None) \<Rightarrow>
          if int (length repositoriesChunk) < getPerPage s0
          then Some (urls @ reqs, acc @ repositoriesChunk, None)
          else loop w s0 user (page + 1) (acc @ repositoriesChunk) (urls @ reqs)
      | (reqs, repositoriesChunk, Some err) \<Rightarrow> Some (urls @ reqs, [], Some err)) = Some y"
    show "s0 = s \<longrightarrow> GetAllRepositories_loop w s' user page acc urls = Some y"
    proof
      assume s0: "s0 = s"
      obtain reqs chunk e where pp: "GetRepositoriesPerPage w s user page = (reqs, chunk, e)"
        by (cases "GetRepositoriesPerPage w s user page") auto
      then have pp': "GetRepositoriesPerPage w s' user page = (reqs, chunk, e)"
        using GetRepositoriesPerPage_cong [OF same, of w user page] by simp
      show "GetAllRepositories_loop w s' user page acc urls = Some y"
      proof (cases "e = None \<and> \<not> int (length chunk) < getPerPage s")
        case True
        then have "loop w s user (page + 1) (acc @ chunk) (urls @ reqs) = Some y"
          using body s0 pp by simp
        then have "GetAllRepositories_loop w s' user (page + 1) (acc @ chunk) (urls @ reqs) = Some y"
          using IH by blast
        then show ?thesis
          using True same by (subst GetAllRepositories_loop.simps) (simp add: pp')
      next
        case False
        then show ?thesis
          using body s0 pp same
          by (subst GetAllRepositories_loop.simps) (auto simp: pp' split: option.splits)
      qed
    qed
  qed
  then show ?thesis by simp
qed

lemma GetAllRepositories_cong:
  assumes "BaseUrl s = BaseUrl s'" "getPerPage s = getPerPage s'"
  shows "GetAllRepositories w s user = GetAllRepositories w s' user"
proof (cases "GetAllRepositories w s user")
  case None
  show ?thesis
  proof (cases "GetAllRepositories w s' user")
    case (Some y)
    then have "GetAllRepositories w s user = Some y"
      unfolding GetAllRepositories_def
      using assms by (intro GetAllRepositories_loop_mono [of s' s]) simp_all
    then show ?thesis using None by simp
  qed (simp add: None)
next
  case (Some y)
  then have "GetAllRepositories w s' user = Some y"
    unfolding GetAllRepositories_def
    using assms by (intro GetAllRepositories_loop_mono [of s s']) simp_all
  then show ?thesis using Some by simp
qed

lemma GetAllReleases_loop_mono:
  assumes same: "BaseUrl s = BaseUrl s'" "getPerPage s = getPerPage s'"
    and run: "GetAllReleases_loop w s user repository page acc urls = Some y"
  shows "GetAllReleases_loop w s' user repository page acc urls = Some y"
proof -
  have "s = s \<longrightarrow> GetAllReleases_loop w s' user repository page acc urls = Some y"
  proof (rule GetAllReleases_loop.raw_induct
        [where P = "\<lambda>w s0 user repository page acc urls y.
            s0 = s \<longrightarrow> GetAllReleases_loop w s' user repository page acc urls = Some y",
         OF _ run])
    fix loop w s0 user repository page acc urls y
    assume IH: "\<And>w s0 user repository page acc urls y.
        loop w s0 user repository page acc urls = Some y \<Longrightarrow>
        s0 = s \<longrightarrow> GetAllReleases_loop w s' user repository page acc urls = Some y"
    and body: "(case GetReleasesPerPage w s0 user repository page of
        (reqs, releasesChunk, None) \<Rightarrow>
          if int (length releasesChunk) < getPerPage s0
          then Some (urls @ reqs, acc @ releasesChunk, None)
          else loop w s0 user repository (page + 1) (acc @ releasesChunk) (urls @ reqs)
      | (reqs, releasesChunk, Some err) \<Rightarrow> Some (urls @ reqs, [], Some err)) = Some y"
    show "s0 = s \<longrightarrow> GetAllReleases_loop w s' user repository page acc urls = Some y"
    proof
      assume s0: "s0 = s"
      obtain reqs chunk e where
        pp: "GetReleasesPerPage w s user repository page = (reqs, chunk, e)"
        by (cases "GetReleasesPerPage w s user repository page") auto
      then have pp': "GetReleasesPerPage w s' user repository page = (reqs, chunk, e)"
        using GetReleasesPerPage_cong [OF same, of w user repository page] by simp
      show "GetAllReleases_loop w s' user repository page acc urls = Some y"
      proof (cases "e = None \<and> \<not> int (length chunk) < getPerPage s")
        case True
        then have "loop w s user repository (page + 1) (acc @ chunk) (urls @ reqs) = Some y"
          using body s0 pp by simp
        then have "GetAllReleases_loop w s' user repository (page + 1) (acc @ chunk)
            (urls @ reqs) = Some y"
          using IH by blast
        then show ?thesis
          using True same by (subst GetAllReleases_loop.simps) (simp add: pp')
      next
        case False
        then show ?thesis
          using body s0 pp same
          by (subst GetAllReleases_loop.simps) (auto simp: pp' split: option.splits)
      qed
    qed
  qed
  then show ?thesis by simp
qed

lemma GetAllReleases_cong:
  assumes "BaseUrl s = BaseUrl s'" "getPerPage s = getPerPage s'"
  shows "GetAllReleases w s user repository = GetAllReleases w s' user repository"
proof (cases "GetAllReleases w s user repository")
  case None
  show ?thesis
  proof (cases "GetAllReleases w s' user repository")
    case (Some y)
    then have "GetAllReleases w s user repository = Some y"
      unfolding GetAllReleases_def
      using assms by (intro GetAllReleases_loop_mono [of s' s]) simp_all
    then show ?thesis using None by simp
  qed (simp add: None)
next
  case (Some y)
  then have "GetAllReleases w s' user repository = Some y"
    unfolding GetAllReleases_def
    using assms by (intro GetAllReleases_loop_mono [of s s']) simp_all
  then show ?thesis using Some by simp
qed

lemma GetRepositoriesPerPage_requests:
  "user \<noteq> [] \<Longrightarrow> 1 \<le> page \<Longrightarrow>
   fst (GetRepositoriesPerPage w s user page) = [repositories_url s user page]"
  by (simp add: GetRepositoriesPerPage_def checkPage_def checkUser_def Let_def
      split: sum.splits)

lemma GetReleasesPerPage_requests:
  "user \<noteq> [] \<Longrightarrow> repository \<noteq> [] \<Longrightarrow> 1 \<le> page \<Longrightarrow>
   fst (GetReleasesPerPage w s user repository page) = [releases_url s user repository page]"
  by (simp add: GetReleasesPerPage_def checkPage_def checkUser_def checkRepository_def Let_def
      split: sum.splits)

lemma GetAllRepositories_loop_step:
  "GetRepositoriesPerPage w s user page = (reqs, chunk, None) \<Longrightarrow>
   GetAllRepositories_loop w s user page acc urls =
     (if int (length chunk) < getPerPage s then Some (urls @ reqs, acc @ chunk, None)
      else GetAllRepositories_loop w s user (page + 1) (acc @ chunk) (urls @ reqs))"
  by (subst GetAllRepositories_loop.simps) simp

lemma GetAllReleases_loop_step:
  "GetReleasesPerPage w s user repository page = (reqs, chunk, None) \<Longrightarrow>
   GetAllReleases_loop w s user repository page acc urls =
     (if int (length chunk) < getPerPage s then Some (urls @ reqs, acc @ chunk, None)
      else GetAllReleases_loop w s user repository (page + 1) (acc @ chunk) (urls @ reqs))"
  by (subst GetAllReleases_loop.simps) simp

text \<open>
  Claim C9. Let P be the configured PerPage when that is positive and 100 otherwise.
  Every request of the two per-page functions carries \<open>per_page=P\<close> in its URL. The
  loops of the two listers test the length of each chunk against P: a chunk shorter than
  P ends the listing with the records accumulated and no error, any other chunk sends
  the loop on to the next page. So a first page of fewer than P records, served at the
  URL with \<open>per_page=P\<close>, is the whole listing after one request, and a first page of
  P records or more is followed by the request of page 2. A non-positive PerPage is no
  error: both listers behave with it exactly as with PerPage = 100.
\<close>
theorem page_size_default:
  assumes P: "P = (if 0 < PerPage s then PerPage s else 100)"
  shows "(user \<noteq> [] \<and> 1 \<le> page \<longrightarrow>
        fst (GetRepositoriesPerPage w s user page) =
          [BaseUrl s @ ''/users/'' @ user @ ''/repos?per_page='' @ fmt_d P
             @ ''&page='' @ fmt_d page])
     \<and> (user \<noteq> [] \<and> repository \<noteq> [] \<and> 1 \<le> page \<longrightarrow>
        fst (GetReleasesPerPage w s user repository page) =
          [BaseUrl s @ ''/repos/'' @ user @ ''/'' @ repository @ ''/releases?per_page=''
             @ fmt_d P @ ''&page='' @ fmt_d page])
     \<and> (GetRepositoriesPerPage w s user page = (reqs, chunk, None) \<longrightarrow>
        GetAllRepositories_loop w s user page acc urls =
          (if int (length chunk) < P then Some (urls @ reqs, acc @ chunk, None)
           else GetAllRepositories_loop w s user (page + 1) (acc @ chunk) (urls @ reqs)))
     \<and> (GetReleasesPerPage w s user repository page = (reqs', chunk', None) \<longrightarrow>
        GetAllReleases_loop w s user repository page acc' urls =
          (if int (length chunk') < P then Some (urls @ reqs', acc' @ chunk', None)
           else GetAllReleases_loop w s user repository (page + 1) (acc' @ chunk')
                  (urls @ reqs')))
     \<and> (user \<noteq> []
          \<and> http_Get w (BaseUrl s @ ''/users/'' @ user @ ''/repos?per_page='' @ fmt_d P
                @ ''&page=1'') = Inr response
          \<and> StatusCode response = 200
          \<and> Decode_Repositories w (Body response) = Inr first \<longrightarrow>
        GetAllRepositories w s user =
          (if int (length first) < P
           then Some ([BaseUrl s @ ''/users/'' @ user @ ''/repos?per_page='' @ fmt_d P
                         @ ''&page=1''], first, None)
           else GetAllRepositories_loop w s user 2 first
                  [BaseUrl s @ ''/users/'' @ user @ ''/repos?per_page='' @ fmt_d P
                     @ ''&page=1'']))
     \<and> (user \<noteq> [] \<and> repository \<noteq> []
          \<and> http_Get w (BaseUrl s @ ''/repos/'' @ user @ ''/'' @ repository
                @ ''/releases?per_page='' @ fmt_d P @ ''&page=1'') = Inr response'
          \<and> StatusCode response' = 200
          \<and> Decode_Releases w (Body response') = Inr first' \<longrightarrow>
        GetAllReleases w s user repository =
          (if int (length first') < P
           then Some ([BaseUrl s @ ''/repos/'' @ user @ ''/'' @ repository
                         @ ''/releases?per_page='' @ fmt_d P @ ''&page=1''], first', None)
           else GetAllReleases_loop w s user repository 2 first'
                  [BaseUrl s @ ''/repos/'' @ user @ ''/'' @ repository
                     @ ''/releases?per_page='' @ fmt_d P @ ''&page=1'']))
     \<and> GetAllRepositories w s user = GetAllRepositories w (s\<lparr>PerPage := P\<rparr>) user
     \<and> GetAllReleases w s user repository =
         GetAllReleases w (s\<lparr>PerPage := P\<rparr>) user repository"
proof -
  have per: "getPerPage s = P"
    using P by (simp add: getPerPage_def perPage_def)
  have one: "fmt_d 1 = ''1''"
    by (simp add: fmt_d_def fmt_nat.simps)
  have repos_url: "repositories_url s user page =
      BaseUrl s @ ''/users/'' @ user @ ''/repos?per_page='' @ fmt_d P @ ''&page='' @ fmt_d page"
    for page
    by (simp add: repositories_url_def per)
  have rels_url: "releases_url s user repository page =
      BaseUrl s @ ''/repos/'' @ user @ ''/'' @ repository @ ''/releases?per_page='' @ fmt_d P
        @ ''&page='' @ fmt_d page" for page
    by (simp add: releases_url_def per)
  have c1: "user \<noteq> [] \<and> 1 \<le> page \<longrightarrow>
        fst (GetRepositoriesPerPage w s user page) =
          [BaseUrl s @ ''/users/'' @ user @ ''/repos?per_page='' @ fmt_d P
             @ ''&page='' @ fmt_d page]"
    using GetRepositoriesPerPage_requests [of user page w s] by (simp add: repos_url)
  have c2: "user \<noteq> [] \<and> repository \<noteq> [] \<and> 1 \<le> page \<longrightarrow>
        fst (GetReleasesPerPage w s user repository page) =
          [BaseUrl s @ ''/repos/'' @ user @ ''/'' @ repository @ ''/releases?per_page=''
             @ fmt_d P @ ''&page='' @ fmt_d page]"
    using GetReleasesPerPage_requests [of user repository page w s] by (simp add: rels_url)
  have c3: "GetRepositoriesPerPage w s user page = (reqs, chunk, None) \<longrightarrow>
        GetAllRepositories_loop w s user page acc urls =
          (if int (length chunk) < P then Some (urls @ reqs, acc @ chunk, None)
           else GetAllRepositories_loop w s user (page + 1) (acc @ chunk) (urls @ reqs))"
    using GetAllRepositories_loop_step [of w s user page reqs chunk acc urls] per by simp
  have c4: "GetReleasesPerPage w s user repository page = (reqs', chunk', None) \<longrightarrow>
        GetAllReleases_loop w s user repository page acc' urls =
          (if int (length chunk') < P then Some (urls @ reqs', acc' @ chunk', None)
           else GetAllReleases_loop w s user repository (page + 1) (acc' @ chunk')
                  (urls @ reqs'))"
    using GetAllReleases_loop_step [of w s user repository page reqs' chunk' acc' urls] per
    by simp
  have c5: "GetAllRepositories w s user =
          (if int (length first) < P
           then Some ([BaseUrl s @ ''/users/'' @ user @ ''/repos?per_page='' @ fmt_d P
                         @ ''&page=1''], first, None)
           else GetAllRepositories_loop w s user 2 first
                  [BaseUrl s @ ''/users/'' @ user @ ''/repos?per_page='' @ fmt_d P
                     @ ''&page=1''])"
    if "user \<noteq> []"
      "http_Get w (BaseUrl s @ ''/users/'' @ user @ ''/repos?per_page='' @ fmt_d P
                @ ''&page=1'') = Inr response"
      "StatusCode response = 200" "Decode_Repositories w (Body response) = Inr first"
  proof -
    have "serves_repositories w s user 1 first"
      using that by (simp add: serves_repositories_def repos_url one StatusOK_def)
    then have "GetRepositoriesPerPage w s user 1 = ([repositories_url s user 1], first, None)"
      using that(1) by (intro GetRepositoriesPerPage_served) simp_all
    from GetAllRepositories_loop_step [OF this, of "[]" "[]"] show ?thesis
      by (simp add: GetAllRepositories_def per repos_url one)
  qed
  have c6: "GetAllReleases w s user repository =
          (if int (length first') < P
           then Some ([BaseUrl s @ ''/repos/'' @ user @ ''/'' @ repository
                         @ ''/releases?per_page='' @ fmt_d P @ ''&page=1''], first', None)
           else GetAllReleases_loop w s user repository 2 first'
                  [BaseUrl s @ ''/repos/'' @ user @ ''/'' @ repository
                     @ ''/releases?per_page='' @ fmt_d P @ ''&page=1''])"
    if "user \<noteq> []" "repository \<noteq> []"
      "http_Get w (BaseUrl s @ ''/repos/'' @ user @ ''/'' @ repository
                @ ''/releases?per_page='' @ fmt_d P @ ''&page=1'') = Inr response'"
      "StatusCode response' = 200" "Decode_Releases w (Body response') = Inr first'"
  proof -
    have "serves_releases w s user repository 1 first'"
      using that by (simp add: serves_releases_def rels_url one StatusOK_def)
    then have "GetReleasesPerPage w s user repository 1 =
        ([releases_url s user repository 1], first', None)"
      using that(1,2) by (intro GetReleasesPerPage_served) simp_all
    from GetAllReleases_loop_step [OF this, of "[]" "[]"] show ?thesis
      by (simp add: GetAllReleases_def per rels_url one)
  qed
  have same: "BaseUrl s = BaseUrl (s\<lparr>PerPage := P\<rparr>)" "getPerPage s = getPerPage (s\<lparr>PerPage := P\<rparr>)"
    using P by (simp_all add: getPerPage_def perPage_def)
  have c7: "GetAllRepositories w s user = GetAllRepositories w (s\<lparr>PerPage := P\<rparr>) user"
    using GetAllRepositories_cong [OF same] .
  have c8: "GetAllReleases w s user repository =
      GetAllReleases w (s\<lparr>PerPage := P\<rparr>) user repository"
    using GetAllReleases_cong [OF same] .
  show ?thesis
    using c1 c2 c3 c4 c5 c6 c7 c8 by blast
qed

theorem page_size_default_witness:
  "fst (GetRepositoriesPerPage default_world zero_scanner ''test'' 1) =
     [''http://forge/users/test/repos?per_page=100&page=1'']
   \<and> fst (GetReleasesPerPage default_world zero_scanner ''test'' ''test'' 1) =
     [''http://forge/repos/test/test/releases?per_page=100&page=1'']
   \<and> GetAllRepositories default_world zero_scanner ''test'' =
     Some ([''http://forge/users/test/repos?per_page=100&page=1''],
           [repo ''repo1'', repo ''repo2'', repo ''repo3''], None)
   \<and> GetAllReleases default_world zero_scanner ''test'' ''test'' =
     Some ([''http://forge/repos/test/test/releases?per_page=100&page=1''],
           [rel ''repo5'', rel ''repo4'', rel ''repo3''], None)
   \<and> GetAllRepositories paged_world scanner3 ''test'' =
     GetAllRepositories_loop paged_world scanner3 ''test'' 2
       [repo ''repo1'', repo ''repo2'', repo ''repo3'']
       [''http://forge/users/test/repos?per_page=3&page=1'']"
proof -
  have P100: "(100::int) = (if 0 < PerPage zero_scanner then PerPage zero_scanner else 100)"
    by (simp add: zero_scanner_def)
  have P3: "(3::int) = (if 0 < PerPage scanner3 then PerPage scanner3 else 100)"
    by (simp add: scanner3_def)
  have repos: "http_Get default_world (BaseUrl zero_scanner @ ''/users/'' @ ''test''
        @ ''/repos?per_page='' @ fmt_d 100 @ ''&page=1'') =
      Inr \<lparr>StatusCode = 200, Status = ''200 OK'', Body = (''P1'', None)\<rparr>"
    "StatusCode \<lparr>StatusCode = 200, Status = ''200 OK'', Body = (''P1'', None)\<rparr> = 200"
    "Decode_Repositories default_world
       (Body \<lparr>StatusCode = 200, Status = ''200 OK'', Body = (''P1'', None)\<rparr>) =
      Inr [repo ''repo1'', repo ''repo2'', repo ''repo3'']"
    by (simp_all add: default_world_def zero_scanner_def stub_world_def ok_def fmt_d_def
        fmt_nat.simps)
  have rels: "http_Get default_world (BaseUrl zero_scanner @ ''/repos/'' @ ''test'' @ ''/''
        @ ''test'' @ ''/releases?per_page='' @ fmt_d 100 @ ''&page=1'') =
      Inr \<lparr>StatusCode = 200, Status = ''200 OK'', Body = (''R1'', None)\<rparr>"
    "StatusCode \<lparr>StatusCode = 200, Status = ''200 OK'', Body = (''R1'', None)\<rparr> = 200"
    "Decode_Releases default_world
       (Body \<lparr>StatusCode = 200, Status = ''200 OK'', Body = (''R1'', None)\<rparr>) =
      Inr [rel ''repo5'', rel ''repo4'', rel ''repo3'']"
    by (simp_all add: default_world_def zero_scanner_def stub_world_def ok_def fmt_d_def
        fmt_nat.simps)
  have paged: "http_Get paged_world (BaseUrl scanner3 @ ''/users/'' @ ''test''
        @ ''/repos?per_page='' @ fmt_d 3 @ ''&page=1'') =
      Inr \<lparr>StatusCode = 200, Status = ''200 OK'', Body = (''P1'', None)\<rparr>"
    "Decode_Repositories paged_world
       (Body \<lparr>StatusCode = 200, Status = ''200 OK'', Body = (''P1'', None)\<rparr>) =
      Inr [repo ''repo1'', repo ''repo2'', repo ''repo3'']"
    by (simp_all add: paged_world_def scanner3_def stub_world_def ok_def fmt_d_def
        fmt_nat.simps)
  note zero = page_size_default [OF P100, where user = "''test''" and page = 1
      and w = default_world and repository = "''test''"
      and response = "\<lparr>StatusCode = 200, Status = ''200 OK'', Body = (''P1'', None)\<rparr>"
      and first = "[repo ''repo1'', repo ''repo2'', repo ''repo3'']"
      and response' = "\<lparr>StatusCode = 200, Status = ''200 OK'', Body = (''R1'', None)\<rparr>"
      and first' = "[rel ''repo5'', rel ''repo4'', rel ''repo3'']"]
  note three = page_size_default [OF P3, where user = "''test''" and page = 1
      and w = paged_world and repository = "''test''"
      and response = "\<lparr>StatusCode = 200, Status = ''200 OK'', Body = (''P1'', None)\<rparr>"
      and first = "[repo ''repo1'', repo ''repo2'', repo ''repo3'']"]
  have "fst (GetRepositoriesPerPage default_world zero_scanner ''test'' 1) =
      [BaseUrl zero_scanner @ ''/users/'' @ ''test'' @ ''/repos?per_page='' @ fmt_d 100
         @ ''&page='' @ fmt_d 1]
    \<and> fst (GetReleasesPerPage default_world zero_scanner ''test'' ''test'' 1) =
      [BaseUrl zero_scanner @ ''/repos/'' @ ''test'' @ ''/'' @ ''test''
         @ ''/releases?per_page='' @ fmt_d 100 @ ''&page='' @ fmt_d 1]
    \<and> GetAllRepositories default_world zero_scanner ''test'' =
      Some ([BaseUrl zero_scanner @ ''/users/'' @ ''test'' @ ''/repos?per_page='' @ fmt_d 100
               @ ''&page=1''], [repo ''repo1'', repo ''repo2'', repo ''repo3''], None)
    \<and> GetAllReleases default_world zero_scanner ''test'' ''test'' =
      Some ([BaseUrl zero_scanner @ ''/repos/'' @ ''test'' @ ''/'' @ ''test''
               @ ''/releases?per_page='' @ fmt_d 100 @ ''&page=1''],
            [rel ''repo5'', rel ''repo4'', rel ''repo3''], None)
    \<and> GetAllRepositories paged_world scanner3 ''test'' =
      GetAllRepositories_loop paged_world scanner3 ''test'' 2
        [repo ''repo1'', repo ''repo2'', repo ''repo3'']
        [BaseUrl scanner3 @ ''/users/'' @ ''test'' @ ''/repos?per_page='' @ fmt_d 3
           @ ''&page=1'']"
    using zero three repos rels paged by simp
  then show ?thesis
    by (simp add: zero_scanner_def scanner3_def fmt_d_def fmt_nat.simps)
qed

section \<open>Properties of the scan\<close>

subsection \<open>Listings of one page\<close>

lemma GetAllReleases_first_page:
  "GetReleasesPerPage w s user repository 1 = (urls, chunk, None) \<Longrightarrow>
   int (length chunk) < getPerPage s \<Longrightarrow>
   GetAllReleases w s user repository = Some (urls, chunk, None)"
  unfolding GetAllReleases_def by (subst GetAllReleases_loop.simps) simp

lemma GetAllReleases_first_error:
  "GetReleasesPerPage w s user repository 1 = (urls, chunk, Some err) \<Longrightarrow>
   GetAllReleases w s user repository = Some (urls, [], Some err)"
  unfolding GetAllReleases_def by (subst GetAllReleases_loop.simps) simp

lemma GetAllRepositories_first_page:
  "GetRepositoriesPerPage w s user 1 = (urls, chunk, None) \<Longrightarrow>
   int (length chunk) < getPerPage s \<Longrightarrow>
   GetAllRepositories w s user = Some (urls, chunk, None)"
  unfolding GetAllRepositories_def by (subst GetAllRepositories_loop.simps) simp

lemma GetAllRepositories_first_error:
  "GetRepositoriesPerPage w s user 1 = (urls, chunk, Some err) \<Longrightarrow>
   GetAllRepositories w s user = Some (urls, [], Some err)"
  unfolding GetAllRepositories_def by (subst GetAllRepositories_loop.simps) simp

lemmas client_defs = GetRepositoriesPerPage_def GetReleasesPerPage_def checkPage_def
  checkUser_def checkRepository_def getApiErrorMessage_def io_ReadAll_def

lemmas step_defs = step_def coordinator_step_def worker_step_def return_scan_def
  launch_def early_return_def maxWorkersCount_def AccountScanFailed_def sortResultItems_def

lemma partial_world_fetches:
  "GetAllRepositories partial_world scanner3 ''test'' =
     Some ([''http://forge/users/test/repos?per_page=3&page=1''], [repo ''a'', repo ''b''], None)"
  "GetAllReleases partial_world scanner3 ''test'' ''a'' =
     Some ([''http://forge/repos/test/a/releases?per_page=3&page=1''], [rel ''v1''], None)"
  "GetAllReleases partial_world scanner3 ''test'' ''b'' =
     Some ([''http://forge/repos/test/b/releases?per_page=3&page=1''], [],
           Some ''could not get releases for the repository b: forbidden'')"
    apply (rule GetAllRepositories_first_page)
     apply (simp add: client_defs partial_world_def eval_defs)
    apply (simp add: eval_defs)
   apply (rule GetAllReleases_first_page)
    apply (simp add: client_defs partial_world_def eval_defs)
   apply (simp add: eval_defs)
  apply (rule GetAllReleases_first_error [where chunk = "[]"])
  apply (simp add: client_defs partial_world_def eval_defs)
  done

subsection \<open>The steps, case by case\<close>

lemma worker_step_cases [consumes 1, case_names take_job no_jobs ctx_cancelled start_fetch
    fetch_failed fetch_done send_panic rendezvous cancel result_panic send_result]:
  assumes "worker_step w s user c n = Some c'"
  obtains
    (take_job) pre post r rest where
      "workers c = pre @ Waiting # post" "jobs c = r # rest"
      "c' = c\<lparr>jobs := rest, workers := pre @ Received r # post\<rparr>"
  | (no_jobs) pre post where
      "workers c = pre @ Waiting # post" "jobs c = []" "jobs_closed c"
      "c' = c\<lparr>workers := pre @ Exited # post\<rparr>"
  | (ctx_cancelled) pre post r where
      "workers c = pre @ Received r # post" "ctx_done c"
      "c' = c\<lparr>workers := pre @ Exited # post\<rparr>"
  | (start_fetch) pre post r where
      "workers c = pre @ Received r # post" "\<not> ctx_done c"
      "c' = c\<lparr>workers := pre @ Fetching r # post\<rparr>"
  | (fetch_failed) pre post r urls rels err where
      "workers c = pre @ Fetching r # post"
      "GetAllReleases w s user (Name r) = Some (urls, rels, Some err)"
      "c' = c\<lparr>requests := requests c @ urls, failures := failures c @ [(r, err)],
              workers := pre @ SendingError err # post\<rparr>"
  | (fetch_done) pre post r urls rels where
      "workers c = pre @ Fetching r # post"
      "GetAllReleases w s user (Name r) = Some (urls, rels, None)"
      "c' = c\<lparr>requests := requests c @ urls,
              workers := pre @ SendingResult \<lparr>Repository = r, Releases = rels\<rparr> # post\<rparr>"
  | (send_panic) pre post err where
      "workers c = pre @ SendingError err # post" "errors_closed c"
      "c' = c\<lparr>workers := pre @ Panicked # post\<rparr>"
  | (rendezvous) pre post err i items where
      "workers c = pre @ SendingError err # post" "\<not> errors_closed c"
      "coordinator c = Collecting i items" "i < jobsCount c"
      "c' = c\<lparr>ctx_done := True, results_closed := True, errors_closed := True,
              coordinator := Returned items (Some (AccountScanFailed user err)),
              workers := pre @ Cancelling # post\<rparr>"
  | (cancel) pre post where
      "workers c = pre @ Cancelling # post"
      "c' = c\<lparr>ctx_done := True, workers := pre @ Exited # post\<rparr>"
  | (result_panic) pre post item where
      "workers c = pre @ SendingResult item # post" "results_closed c"
      "c' = c\<lparr>workers := pre @ Panicked # post\<rparr>"
  | (send_result) pre post item where
      "workers c = pre @ SendingResult item # post" "\<not> results_closed c"
      "length (results c) < jobsCount c"
      "c' = c\<lparr>results := results c @ [item], workers := pre @ Waiting # post\<rparr>"
proof -
  from assms have n: "n < length (workers c)"
    by (auto simp: worker_step_def split: if_splits)
  define pre where "pre = take n (workers c)"
  define post where "post = drop (Suc n) (workers c)"
  have ws: "workers c = pre @ workers c ! n # post"
    using n by (simp add: pre_def post_def id_take_nth_drop [symmetric])
  have upd: "(workers c)[n := x] = pre @ x # post" for x
    using n by (simp add: pre_def post_def upd_conv_take_nth_drop)
  show thesis
  proof (cases "workers c ! n")
    case Waiting
    then show ?thesis
      using assms n ws upd take_job no_jobs
      by (auto simp: worker_step_def split: list.splits if_splits)
  next
    case (Received r)
    then show ?thesis
      using assms n ws upd ctx_cancelled start_fetch
      by (auto simp: worker_step_def split: if_splits)
  next
    case (Fetching r)
    then show ?thesis
      using assms n ws upd fetch_failed fetch_done
      by (auto simp: worker_step_def split: option.splits prod.splits)
  next
    case (SendingError err)
    then show ?thesis
      using assms n ws upd send_panic rendezvous
      by (auto simp: worker_step_def return_scan_def split: if_splits coordinator.splits)
  next
    case Cancelling
    then show ?thesis
      using assms n ws upd cancel
      by (auto simp: worker_step_def)
  next
    case (SendingResult item)
    then show ?thesis
      using assms n ws upd result_panic send_result
      by (auto simp: worker_step_def split: if_splits)
  next
    case Exited
    then show ?thesis using assms n by (simp add: worker_step_def)
  next
    case Panicked
    then show ?thesis using assms n by (simp add: worker_step_def)
  qed
qed

lemma coordinator_step_cases [consumes 1, case_names enqueue close collect return]:
  assumes "coordinator_step user c = Some c'"
  obtains
    (enqueue) r rest where
      "coordinator c = Enqueuing (r # rest)" "length (jobs c) < jobsCount c"
      "c' = c\<lparr>jobs := jobs c @ [r], coordinator := Enqueuing rest\<rparr>"
  | (close) "coordinator c = Enqueuing []"
      "c' = c\<lparr>jobs_closed := True, coordinator := Collecting 0 []\<rparr>"
  | (collect) i items item rest where
      "coordinator c = Collecting i items" "i < jobsCount c" "results c = item # rest"
      "c' = c\<lparr>results := rest, coordinator := Collecting (i + 1) (items @ [item]),
              drained := drained c @ [item]\<rparr>"
  | (return) i items where
      "coordinator c = Collecting i items" "\<not> i < jobsCount c"
      "c' = c\<lparr>ctx_done := True, results_closed := True, errors_closed := True,
              coordinator := Returned (sortResultItems items) None\<rparr>"
  using assms
  by (auto simp: coordinator_step_def return_scan_def
      split: coordinator.splits list.splits if_splits)

subsection \<open>The invariant holds along every run\<close>

lemma launch_inv: "scan_inv w s user repositories (launch repositories urls)"
  by (simp add: scan_inv_def static_inv_def returned_inv_def running_inv_def launch_def
      accounted_def delivered_def)

lemma worker_step_static:
  assumes "worker_step w s user c n = Some c'" and "static_inv w s user repositories c"
  shows "static_inv w s user repositories c'"
  using assms
proof (cases rule: worker_step_cases)
  case (fetch_failed pre post r urls rels err)
  then show ?thesis
    using assms(2) by (auto simp: static_inv_def delivered_def fetch_failed_def)
next
  case (fetch_done pre post r urls rels)
  then show ?thesis
    using assms(2)
    by (auto simp: static_inv_def delivered_def fetch_ok_def item_of_def releases_of_def)
qed (use assms(2) in \<open>auto simp: static_inv_def delivered_def\<close>)

lemma coordinator_step_static:
  assumes "coordinator_step user c = Some c'" and "static_inv w s user repositories c"
  shows "static_inv w s user repositories c'"
  using assms
  by (cases rule: coordinator_step_cases) (auto simp: static_inv_def delivered_def)

lemma worker_step_running:
  assumes step: "worker_step w s user c n = Some c'"
    and run: "running_inv repositories c" and nr: "\<not> has_returned (coordinator c)"
  shows "returned_inv w s user repositories c'"
  using step
proof (cases rule: worker_step_cases)
  case (rendezvous pre post err i items)
  have "mset (concat (map sending (workers c))) = mset (map snd (failures c))"
    using run by (simp add: running_inv_def)
  moreover have "err \<in> set (concat (map sending (workers c)))"
    using rendezvous(1) by simp
  ultimately have "err \<in> set (map snd (failures c))"
    by (metis set_mset_mset)
  then have "err \<in> snd ` set (failures c)"
    by simp
  then obtain r where r: "(r, err) \<in> set (failures c)"
    by auto
  then have "r \<in># accounted c"
    by (auto simp: accounted_def intro: rev_image_eqI)
  then have "r \<in> set repositories"
    using run by (simp add: running_inv_def)
  then show ?thesis
    using r rendezvous by (auto simp: returned_inv_def)
qed (use run nr in \<open>auto simp: returned_inv_def running_inv_def accounted_def
        split: coordinator.splits\<close>)

lemma worker_step_returned:
  assumes step: "worker_step w s user c n = Some c'"
    and ret: "returned_inv w s user repositories c" and r: "has_returned (coordinator c)"
  shows "returned_inv w s user repositories c'"
  using step
  by (cases rule: worker_step_cases)
    (use ret r in \<open>auto simp: returned_inv_def split: coordinator.splits option.splits\<close>)

lemma worker_step_inv:
  assumes "worker_step w s user c n = Some c'" and "scan_inv w s user repositories c"
  shows "scan_inv w s user repositories c'"
proof (cases "has_returned (coordinator c)")
  case True
  then show ?thesis
    using assms worker_step_static worker_step_returned by (auto simp: scan_inv_def)
next
  case False
  then have "running_inv repositories c"
    using assms(2) by (cases "coordinator c") (simp_all add: scan_inv_def returned_inv_def)
  then show ?thesis
    using False assms worker_step_static worker_step_running by (auto simp: scan_inv_def)
qed

lemma coordinator_return_inv:
  assumes static: "static_inv w s user repositories c"
    and run: "running_inv repositories c"
    and co: "coordinator c = Collecting i items" and i: "\<not> i < jobsCount c"
  shows "returned_inv w s user repositories
     (c\<lparr>ctx_done := True, results_closed := True, errors_closed := True,
        coordinator := Returned (sortResultItems items) None\<rparr>)"
proof -
  have len: "length items = i" "length repositories \<le> i"
    using run co i static by (simp_all add: running_inv_def static_inv_def)
  have acc: "mset (jobs c) + mset (concat (map held (workers c)))
      + mset (map Repository (results c)) + mset (map Repository items)
      + mset (map fst (failures c)) = mset repositories"
    using run co by (simp add: running_inv_def accounted_def)
  have "length (jobs c) + length (concat (map held (workers c))) + length (results c)
      + length items + length (failures c) = length repositories"
    using arg_cong [OF acc, of size] by simp
  then have sizes: "length (jobs c) = 0" "length (concat (map held (workers c))) = 0"
    "length (results c) = 0" "length (failures c) = 0" "length items = length repositories"
    using len by linarith+
  then have zero: "jobs c = []" "concat (map held (workers c)) = []" "results c = []"
    "failures c = []"
    by simp_all
  have repos: "mset (map Repository items) = mset repositories"
    using acc zero by simp
  have held: "\<forall>wk\<in>set (workers c). held wk = []"
    using zero(2) by simp
  have "mset (concat (map sending (workers c))) = {#}"
    using run zero(4) by (simp add: running_inv_def)
  then have sending: "\<forall>wk\<in>set (workers c). sending wk = []"
    by simp
  have idle: "wk = Waiting \<or> wk = Exited" if "wk \<in> set (workers c)" for wk
    by (cases wk) (use that held sending run in \<open>auto simp: running_inv_def\<close>)
  have fetched: "\<forall>item\<in>set items.
      fetch_ok w s user (Repository item) \<and> item = item_of w s user (Repository item)"
    using static co by (simp add: static_inv_def delivered_def)
  then have "map (item_of w s user) (map Repository items) = items"
    by (induction items) auto
  then have "mset items = image_mset (item_of w s user) (mset (map Repository items))"
    by (metis mset_map)
  then have items: "mset items = mset (map (item_of w s user) repositories)"
    using repos by simp
  have ok: "\<forall>r\<in>set repositories. fetch_ok w s user r"
  proof
    fix r assume "r \<in> set repositories"
    then have "r \<in> set (map Repository items)"
      using repos by (metis set_mset_mset)
    then show "fetch_ok w s user r"
      using fetched by auto
  qed
  have drained: "drained c = items"
    using run co by (simp add: running_inv_def)
  show ?thesis
    using items ok zero idle drained by (auto simp: returned_inv_def)
qed

lemma coordinator_step_inv:
  assumes step: "coordinator_step user c = Some c'" and inv: "scan_inv w s user repositories c"
  shows "scan_inv w s user repositories c'"
proof -
  have static: "static_inv w s user repositories c'"
    using coordinator_step_static [OF step] inv by (simp add: scan_inv_def)
  have "returned_inv w s user repositories c'"
    using step
  proof (cases rule: coordinator_step_cases)
    case (return i items)
    then show ?thesis
      using coordinator_return_inv [of w s user repositories c i items] inv
      by (simp add: scan_inv_def returned_inv_def)
  qed (use inv in \<open>auto simp: scan_inv_def returned_inv_def running_inv_def accounted_def\<close>)
  then show ?thesis
    using static by (simp add: scan_inv_def)
qed

lemma step_inv:
  "step w s user c thread = Some c' \<Longrightarrow> scan_inv w s user repositories c \<Longrightarrow>
   scan_inv w s user repositories c'"
  by (cases thread) (auto simp: step_def intro: coordinator_step_inv worker_step_inv)

lemma exec_inv:
  "exec w s user c schedule = Some c' \<Longrightarrow> scan_inv w s user repositories c \<Longrightarrow>
   scan_inv w s user repositories c'"
  by (induction schedule arbitrary: c) (auto split: option.splits intro: step_inv)


subsection \<open>Runs are finite, and a failing worker is served\<close>


















subsection \<open>What ScanRepositories returns\<close>

lemma early_return_stuck: "step w s user (early_return err urls) thread = None"
  by (cases thread) (simp_all add: step_def coordinator_step_def worker_step_def early_return_def)

lemma early_return_exec:
  "exec w s user (early_return err urls) schedule = Some c \<Longrightarrow> schedule = []"
  by (cases schedule) (simp_all add: early_return_stuck)

lemma ScanRepositories_cases [consumes 1, case_names early launched]:
  assumes "ScanRepositories w s user schedule = Some (items, err)"
  obtains
    (early) urls repositories e where
      "GetAllRepositories w s user = Some (urls, repositories, Some e)"
      "schedule = []" "items = []" "err = Some e"
  | (launched) urls repositories c where
      "GetAllRepositories w s user = Some (urls, repositories, None)"
      "exec w s user (launch repositories urls) schedule = Some c"
      "coordinator c = Returned items err"
      "scan_inv w s user repositories c"
proof (cases "GetAllRepositories w s user")
  case None
  then show ?thesis
    using assms by (simp add: ScanRepositories_def ScanRepositories_start_def)
next
  case (Some y)
  then obtain urls repositories e where
    y: "GetAllRepositories w s user = Some (urls, repositories, e)"
    by (cases y) auto
  show ?thesis
  proof (cases e)
    case None
    then obtain c where c: "exec w s user (launch repositories urls) schedule = Some c"
      "coordinator c = Returned items err"
      using assms y
      by (auto simp: ScanRepositories_def ScanRepositories_start_def
          split: option.splits coordinator.splits)
    then show ?thesis
      using launched [OF _ c] y None exec_inv [OF c(1) launch_inv] by simp
  next
    case (Some e')
    then obtain c where c: "exec w s user (early_return e' urls) schedule = Some c"
      "coordinator c = Returned items err"
      using assms y
      by (auto simp: ScanRepositories_def ScanRepositories_start_def
          split: option.splits coordinator.splits)
    then have nil: "schedule = []"
      using early_return_exec by blast
    then have "c = early_return e' urls"
      using c(1) by simp
    then have "items = []" "err = Some e'"
      using c(2) by (simp_all add: early_return_def)
    then show ?thesis
      using nil y Some early [of urls repositories e'] by simp
  qed
qed

lemma successful_scan:
  assumes "ScanRepositories w s user schedule = Some (items, None)"
  obtains urls repositories arrival where
    "GetAllRepositories w s user = Some (urls, repositories, None)"
    "items = sortResultItems arrival"
    "mset arrival = mset (map (item_of w s user) repositories)"
    "\<forall>r\<in>set repositories. fetch_ok w s user r"
  using assms
proof (cases rule: ScanRepositories_cases)
  case (launched urls repositories c)
  then show ?thesis
    using that [of urls repositories] by (auto simp: scan_inv_def returned_inv_def)
qed simp

lemma fetch_ok_releases:
  "fetch_ok w s user r \<Longrightarrow>
   \<exists>urls. GetAllReleases w s user (Name r) = Some (urls, releases_of w s user r, None)"
  by (auto simp: fetch_ok_def releases_of_def split: option.splits)

text \<open>
  Claim C4. A successful scan of the N repositories that the repository lister returned
  yields exactly N items, one for each listed repository (as many items for a repository
  as the listing has copies of it); the releases of every item are those that the release
  listing of the item's own repository returned, so that the items hold the sum of the
  M_i releases in total.
\<close>
theorem scan_completeness:
  assumes "ScanRepositories w s user schedule = Some (items, None)"
  shows "\<exists>urls repositories.
     GetAllRepositories w s user = Some (urls, repositories, None)
     \<and> length items = length repositories
     \<and> mset (map Repository items) = mset repositories
     \<and> mset items = mset (map (item_of w s user) repositories)
     \<and> (\<forall>item\<in>set items. \<exists>urls'.
           GetAllReleases w s user (Name (Repository item)) = Some (urls', Releases item, None))
     \<and> sum_list (map (\<lambda>item. length (Releases item)) items) =
         sum_list (map (\<lambda>r. length (releases_of w s user r)) repositories)"
  using assms
proof (cases rule: successful_scan)
  case (1 urls repositories arrival)
  have items: "mset items = mset (map (item_of w s user) repositories)"
    using 1 by (simp add: sortResultItems_def)
  from arg_cong [OF items, of size] have len: "length items = length repositories"
    by simp
  from arg_cong [OF items, of "image_mset Repository"]
  have repos: "mset (map Repository items) = mset repositories"
    by (simp add: item_of_def image_mset.compositionality comp_def)
  have each: "\<exists>urls'. GetAllReleases w s user (Name (Repository item)) =
      Some (urls', Releases item, None)" if "item \<in> set items" for item
  proof -
    have "item \<in> set (map (item_of w s user) repositories)"
      using that items by (metis set_mset_mset)
    then obtain r where "r \<in> set repositories" "item = item_of w s user r"
      by auto
    then show ?thesis
      using 1(4) fetch_ok_releases [of w s user r] by (auto simp: item_of_def)
  qed
  from arg_cong [OF items, of "\<lambda>M. sum_mset (image_mset (\<lambda>item. length (Releases item)) M)"]
  have total: "sum_list (map (\<lambda>item. length (Releases item)) items) =
      sum_list (map (\<lambda>r. length (releases_of w s user r)) repositories)"
    by (simp add: sum_mset_sum_list [symmetric] item_of_def image_mset.compositionality comp_def)
  show ?thesis
    using 1(1) len repos items each total by blast
qed


lemma happy_world_fetches:
  "GetAllRepositories happy_world scanner3 ''test'' =
     Some ([''http://forge/users/test/repos?per_page=3&page=1''], [repo ''b'', repo ''a''], None)"
  "GetAllReleases happy_world scanner3 ''test'' ''a'' =
     Some ([''http://forge/repos/test/a/releases?per_page=3&page=1''], [rel ''v1''], None)"
  "GetAllReleases happy_world scanner3 ''test'' ''b'' =
     Some ([''http://forge/repos/test/b/releases?per_page=3&page=1''], [], None)"
    apply (rule GetAllRepositories_first_page)
     apply (simp add: client_defs happy_world_def eval_defs)
    apply (simp add: eval_defs)
   apply (rule GetAllReleases_first_page)
    apply (simp add: client_defs happy_world_def eval_defs)
   apply (simp add: eval_defs)
  apply (rule GetAllReleases_first_page)
   apply (simp add: client_defs happy_world_def eval_defs)
  apply (simp add: eval_defs)
  done

lemma happy_scan:
  "ScanRepositories happy_world scanner3 ''test'' [0, 0, 0, 1, 1, 1, 1, 2, 2, 2, 2, 0, 0, 0] =
     Some ([\<lparr>Repository = repo ''a'', Releases = [rel ''v1'']\<rparr>,
            \<lparr>Repository = repo ''b'', Releases = []\<rparr>], None)"
  by (simp add: ScanRepositories_def ScanRepositories_start_def happy_world_fetches step_defs
      repo_def)

theorem scan_completeness_witness:
  "ScanRepositories happy_world scanner3 ''test'' [0, 0, 0, 1, 1, 1, 1, 2, 2, 2, 2, 0, 0, 0] =
     Some ([\<lparr>Repository = repo ''a'', Releases = [rel ''v1'']\<rparr>,
            \<lparr>Repository = repo ''b'', Releases = []\<rparr>], None)
   \<and> (\<exists>urls repositories.
     GetAllRepositories happy_world scanner3 ''test'' = Some (urls, repositories, None)
     \<and> length [\<lparr>Repository = repo ''a'', Releases = [rel ''v1'']\<rparr>,
            \<lparr>Repository = repo ''b'', Releases = []\<rparr>] = length repositories
     \<and> mset (map Repository [\<lparr>Repository = repo ''a'', Releases = [rel ''v1'']\<rparr>,
            \<lparr>Repository = repo ''b'', Releases = []\<rparr>]) = mset repositories)"
  using scan_completeness [OF happy_scan] happy_scan by blast

lemma sortResultItems_fixed_by_names:
  assumes "mset arrival = mset (map (item_of w s user) repositories)"
    and "inj_on FullName (set repositories)"
  shows "sortResultItems arrival = sortResultItems (map (item_of w s user) repositories)"
proof -
  let ?f = "\<lambda>item. FullName (Repository item)"
  have "inj_on ?f (set (map (item_of w s user) repositories))"
    using assms(2) by (auto simp: inj_on_def item_of_def)
  then have "sort_key ?f (map (item_of w s user) repositories) = sort_key ?f arrival"
    using assms(1) by (intro sort_key_inj_key_eq) simp_all
  then show ?thesis
    by (simp add: sortResultItems_def)
qed

lemma ScanRepositories_launched:
  assumes "GetAllRepositories w s user = Some (urls, repositories, None)"
    and "exec w s user (launch repositories urls) schedule = Some c"
    and "coordinator c = Returned items err"
  shows "ScanRepositories w s user schedule = Some (items, err)"
  using assms by (simp add: ScanRepositories_def ScanRepositories_start_def)

text \<open>
  Claim C5, as amended. In a successful scan the result is the stable sort, ascending by
  Repository.FullName, of the items in the order in which the coordinator received them
  from the channel of results (the history \<open>drained\<close> of the run): it is sorted, it is
  a rearrangement of that sequence, and the items of any one full name stand in it in the
  order in which they were received. The full names of the result, in order, are the
  sorted full names of the listing, whatever the workers did. When no two different
  listed repositories share a full name, the result itself is fixed by the listing alone
  and is the same under every schedule of the workers.
\<close>
theorem sorted_scan_result:
  assumes listed: "GetAllRepositories w s user = Some (urls, repositories, None)"
    and run: "exec w s user (launch repositories urls) schedule = Some c"
    and returned: "coordinator c = Returned items None"
  shows "ScanRepositories w s user schedule = Some (items, None)
     \<and> items = sortResultItems (drained c)
     \<and> sorted (map (\<lambda>item. FullName (Repository item)) items)
     \<and> mset items = mset (drained c)
     \<and> (\<forall>name. filter (\<lambda>item. FullName (Repository item) = name) items =
                 filter (\<lambda>item. FullName (Repository item) = name) (drained c))
     \<and> mset (drained c) = mset (map (item_of w s user) repositories)
     \<and> map (\<lambda>item. FullName (Repository item)) items = sort (map FullName repositories)
     \<and> (inj_on FullName (set repositories) \<longrightarrow>
           items = sortResultItems (map (item_of w s user) repositories))
     \<and> (inj_on FullName (set repositories)
           \<and> ScanRepositories w s user schedule' = Some (items', None)
         \<longrightarrow> items' = items)"
proof -
  have inv: "scan_inv w s user repositories c"
    using exec_inv [OF run launch_inv] .
  have items: "items = sortResultItems (drained c)"
    and arrival: "mset (drained c) = mset (map (item_of w s user) repositories)"
    using inv returned by (simp_all add: scan_inv_def returned_inv_def)
  have scan: "ScanRepositories w s user schedule = Some (items, None)"
    using ScanRepositories_launched [OF listed run returned] .
  have sorted: "sorted (map (\<lambda>item. FullName (Repository item)) items)"
    using items by (simp add: sortResultItems_def)
  have perm: "mset items = mset (drained c)"
    using items by (simp add: sortResultItems_def)
  have stable: "filter (\<lambda>item. FullName (Repository item) = name) items =
      filter (\<lambda>item. FullName (Repository item) = name) (drained c)" for name
    using items by (simp add: sortResultItems_def sort_key_stable)
  have "mset (map (\<lambda>item. FullName (Repository item)) items) = mset (map FullName repositories)"
    using arg_cong [OF arrival, of "image_mset (\<lambda>item. FullName (Repository item))"] items
    by (simp add: sortResultItems_def item_of_def image_mset.compositionality comp_def)
  then have names: "map (\<lambda>item. FullName (Repository item)) items = sort (map FullName repositories)"
    using sorted by (intro properties_for_sort [symmetric])
  have fixed: "items = sortResultItems (map (item_of w s user) repositories)"
    if "inj_on FullName (set repositories)"
    using sortResultItems_fixed_by_names [OF arrival that] items by simp
  have other: "items' = items"
    if inj: "inj_on FullName (set repositories)"
      and scan': "ScanRepositories w s user schedule' = Some (items', None)"
    using scan'
  proof (cases rule: successful_scan)
    case (1 urls' repositories' arrival')
    then have "repositories' = repositories"
      using listed by simp
    then have "items' = sortResultItems (map (item_of w s user) repositories)"
      using sortResultItems_fixed_by_names [OF _ inj, of arrival' w s user] 1 by simp
    then show ?thesis
      using fixed [OF inj] by simp
  qed
  show ?thesis
    using scan items sorted perm stable arrival names fixed other by blast
qed

lemma happy_run:
  "\<exists>c. exec happy_world scanner3 ''test''
          (launch [repo ''b'', repo ''a''] [''http://forge/users/test/repos?per_page=3&page=1''])
          [0, 0, 0, 1, 1, 1, 1, 2, 2, 2, 2, 0, 0, 0] = Some c
     \<and> coordinator c = Returned [\<lparr>Repository = repo ''a'', Releases = [rel ''v1'']\<rparr>,
            \<lparr>Repository = repo ''b'', Releases = []\<rparr>] None
     \<and> drained c = [\<lparr>Repository = repo ''b'', Releases = []\<rparr>,
            \<lparr>Repository = repo ''a'', Releases = [rel ''v1'']\<rparr>]"
  by (simp add: happy_world_fetches step_defs repo_def)

theorem sorted_scan_result_witness:
  "\<exists>c. exec happy_world scanner3 ''test''
          (launch [repo ''b'', repo ''a''] [''http://forge/users/test/repos?per_page=3&page=1''])
          [0, 0, 0, 1, 1, 1, 1, 2, 2, 2, 2, 0, 0, 0] = Some c
     \<and> drained c = [\<lparr>Repository = repo ''b'', Releases = []\<rparr>,
            \<lparr>Repository = repo ''a'', Releases = [rel ''v1'']\<rparr>]
     \<and> ScanRepositories happy_world scanner3 ''test'' [0, 0, 0, 1, 1, 1, 1, 2, 2, 2, 2, 0, 0, 0] =
         Some ([\<lparr>Repository = repo ''a'', Releases = [rel ''v1'']\<rparr>,
                \<lparr>Repository = repo ''b'', Releases = []\<rparr>], None)
     \<and> [\<lparr>Repository = repo ''a'', Releases = [rel ''v1'']\<rparr>,
         \<lparr>Repository = repo ''b'', Releases = []\<rparr>] = sortResultItems (drained c)
     \<and> sorted (map (\<lambda>item. FullName (Repository item))
          [\<lparr>Repository = repo ''a'', Releases = [rel ''v1'']\<rparr>,
           \<lparr>Repository = repo ''b'', Releases = []\<rparr>])"
proof -
  obtain c where c: "exec happy_world scanner3 ''test''
          (launch [repo ''b'', repo ''a''] [''http://forge/users/test/repos?per_page=3&page=1''])
          [0, 0, 0, 1, 1, 1, 1, 2, 2, 2, 2, 0, 0, 0] = Some c"
     "coordinator c = Returned [\<lparr>Repository = repo ''a'', Releases = [rel ''v1'']\<rparr>,
            \<lparr>Repository = repo ''b'', Releases = []\<rparr>] None"
     "drained c = [\<lparr>Repository = repo ''b'', Releases = []\<rparr>,
            \<lparr>Repository = repo ''a'', Releases = [rel ''v1'']\<rparr>]"
    using happy_run by blast
  show ?thesis
    using sorted_scan_result [OF happy_world_fetches(1) c(1) c(2)] c by blast
qed

lemma twin_world_fetches:
  "GetAllRepositories twin_world scanner3 ''test'' =
     Some ([''http://forge/users/test/repos?per_page=3&page=1''],
           [\<lparr>FullName = ''test/x'', Name = ''a''\<rparr>, \<lparr>FullName = ''test/x'', Name = ''b''\<rparr>], None)"
  "GetAllReleases twin_world scanner3 ''test'' ''a'' =
     Some ([''http://forge/repos/test/a/releases?per_page=3&page=1''], [rel ''v1''], None)"
  "GetAllReleases twin_world scanner3 ''test'' ''b'' =
     Some ([''http://forge/repos/test/b/releases?per_page=3&page=1''], [], None)"
    apply (rule GetAllRepositories_first_page)
     apply (simp add: client_defs twin_world_def eval_defs)
    apply (simp add: eval_defs)
   apply (rule GetAllReleases_first_page)
    apply (simp add: client_defs twin_world_def eval_defs)
   apply (simp add: eval_defs)
  apply (rule GetAllReleases_first_page)
   apply (simp add: client_defs twin_world_def eval_defs)
  apply (simp add: eval_defs)
  done

theorem order_depends_on_delivery:
  "ScanRepositories twin_world scanner3 ''test'' [0, 0, 0, 1, 1, 1, 1, 2, 2, 2, 2, 0, 0, 0] =
     Some ([\<lparr>Repository = \<lparr>FullName = ''test/x'', Name = ''a''\<rparr>, Releases = [rel ''v1'']\<rparr>,
            \<lparr>Repository = \<lparr>FullName = ''test/x'', Name = ''b''\<rparr>, Releases = []\<rparr>], None)
   \<and> ScanRepositories twin_world scanner3 ''test'' [0, 0, 0, 1, 1, 1, 2, 2, 2, 2, 1, 0, 0, 0] =
     Some ([\<lparr>Repository = \<lparr>FullName = ''test/x'', Name = ''b''\<rparr>, Releases = []\<rparr>,
            \<lparr>Repository = \<lparr>FullName = ''test/x'', Name = ''a''\<rparr>, Releases = [rel ''v1'']\<rparr>], None)
   \<and> [\<lparr>Repository = \<lparr>FullName = ''test/x'', Name = ''a''\<rparr>, Releases = [rel ''v1'']\<rparr>,
       \<lparr>Repository = \<lparr>FullName = ''test/x'', Name = ''b''\<rparr>, Releases = []\<rparr>]
     \<noteq> [\<lparr>Repository = \<lparr>FullName = ''test/x'', Name = ''b''\<rparr>, Releases = []\<rparr>,
        \<lparr>Repository = \<lparr>FullName = ''test/x'', Name = ''a''\<rparr>, Releases = [rel ''v1'']\<rparr>]"
  by (simp add: ScanRepositories_def ScanRepositories_start_def twin_world_fetches step_defs)












lemma GetRepositoriesPerPage_urls:
  "set (fst (GetRepositoriesPerPage w s user page)) \<subseteq> {repositories_url s user page}"
  by (auto simp: GetRepositoriesPerPage_def Let_def split: option.splits sum.splits)

lemma GetAllRepositories_loop_urls:
  assumes "GetAllRepositories_loop w s user page acc urls = Some y"
  shows "\<forall>url\<in>set (fst y). url \<in> set urls \<or> (\<exists>p. url = repositories_url s user p)"
proof (rule GetAllRepositories_loop.raw_induct
    [where P = "\<lambda>w s user page acc urls y.
        \<forall>url\<in>set (fst y). url \<in> set urls \<or> (\<exists>p. url = repositories_url s user p)",
     OF _ assms])
  fix loop w s user page acc urls y
  assume IH: "\<And>w s user page acc urls y. loop w s user page acc urls = Some y \<Longrightarrow>
      \<forall>url\<in>set (fst y). url \<in> set urls \<or> (\<exists>p. url = repositories_url s user p)"
    and body: "(case GetRepositoriesPerPage w s user page of
        (reqs, repositoriesChunk, None) \<Rightarrow>
          if int (length repositoriesChunk) < getPerPage s
          then Some (urls @ reqs, acc @ repositoriesChunk, None)
          else loop w s user (page + 1) (acc @ repositoriesChunk) (urls @ reqs)
      | (reqs, repositoriesChunk, Some err) \<Rightarrow> Some (urls @ reqs, [], Some err)) = Some y"
  obtain reqs chunk e where pp: "GetRepositoriesPerPage w s user page = (reqs, chunk, e)"
    by (cases "GetRepositoriesPerPage w s user page") auto
  then have reqs: "set reqs \<subseteq> {repositories_url s user page}"
    using GetRepositoriesPerPage_urls [of w s user page] by simp
  show "\<forall>url\<in>set (fst y). url \<in> set urls \<or> (\<exists>p. url = repositories_url s user p)"
  proof (cases "e = None \<and> \<not> int (length chunk) < getPerPage s")
    case True
    then have "loop w s user (page + 1) (acc @ chunk) (urls @ reqs) = Some y"
      using body pp by simp
    from IH [OF this] show ?thesis
      using reqs by auto
  next
    case False
    then have "fst y = urls @ reqs"
      using body pp by (auto split: option.splits if_splits)
    then show ?thesis
      using reqs by auto
  qed
qed

text \<open>
  Claim C6, as amended. When the initial repository listing fails, ScanRepositories
  returns the lister's error as it is (no AccountScanFailed context is added on this
  path) together with the nil slice. No worker is launched and no step of the scan is
  possible, so no release is fetched: the only URLs requested are those of the repository
  listing.
\<close>
theorem listing_failure:
  assumes "GetAllRepositories w s user = Some (urls, repositories, Some err)"
  shows "ScanRepositories w s user [] = Some ([], Some err)
     \<and> (ScanRepositories w s user schedule = Some result \<longrightarrow> result = ([], Some err))
     \<and> ScanRepositories_start w s user = Some (early_return err urls)
     \<and> workers (early_return err urls) = []
     \<and> step w s user (early_return err urls) thread = None
     \<and> requests (early_return err urls) = urls
     \<and> (\<forall>url\<in>set urls. \<exists>page. url = repositories_url s user page)"
proof -
  have start: "ScanRepositories_start w s user = Some (early_return err urls)"
    using assms by (simp add: ScanRepositories_start_def)
  have now: "ScanRepositories w s user [] = Some ([], Some err)"
    using start by (simp add: ScanRepositories_def early_return_def)
  have only: "result = ([], Some err)" if "ScanRepositories w s user schedule = Some result"
  proof -
    obtain items e where result: "result = (items, e)"
      by (cases result)
    with that have "ScanRepositories w s user schedule = Some (items, e)"
      by simp
    then show ?thesis
      using assms result by (cases rule: ScanRepositories_cases) simp_all
  qed
  have urls: "\<forall>url\<in>set urls. \<exists>page. url = repositories_url s user page"
    using GetAllRepositories_loop_urls [of w s user 1 "[]" "[]" "(urls, repositories, Some err)"]
      assms
    by (simp add: GetAllRepositories_def)
  show ?thesis
    using start now only urls early_return_stuck [of w s user err urls thread]
    by (simp add: early_return_def)
qed

lemma offline_listing:
  "GetAllRepositories offline_world scanner3 ''test'' =
     Some ([''http://forge/users/test/repos?per_page=3&page=1''], [], Some ''connection refused'')"
  by (rule GetAllRepositories_first_error [where chunk = "[]"])
    (simp add: client_defs offline_world_def eval_defs)

theorem listing_failure_witness:
  "ScanRepositories offline_world scanner3 ''test'' [] = Some ([], Some ''connection refused'')
   \<and> ScanRepositories_start offline_world scanner3 ''test'' =
       Some (early_return ''connection refused''
              [''http://forge/users/test/repos?per_page=3&page=1''])
   \<and> step offline_world scanner3 ''test''
        (early_return ''connection refused''
          [''http://forge/users/test/repos?per_page=3&page=1'']) 1 = None"
  using listing_failure [OF offline_listing, of "[]" "([], Some ''connection refused'')" 1]
  by simp

theorem listing_failure_not_wrapped:
  "ScanRepositories offline_world scanner3 ''test'' [] = Some ([], Some ''connection refused'')
   \<and> ''connection refused'' \<noteq> AccountScanFailed ''test'' ''connection refused''"
  by (simp add: ScanRepositories_def ScanRepositories_start_def offline_listing early_return_def
      AccountScanFailed_def)

text \<open>
  Claim C1 fails on the code. With two repositories, the release listing of the first
  succeeding and that of the second failing, and the coordinator draining the first
  worker's item before the second worker's error, ScanRepositories returns the error
  together with the item collected before it: the bare \<open>return\<close> of line 100
  returns the named result \<open>items\<close> as it stands.
\<close>
theorem partial_items_returned_with_error:
  "ScanRepositories partial_world scanner3 ''test'' [0, 0, 0, 1, 1, 1, 1, 0, 2, 2, 2, 2] =
     Some ([\<lparr>Repository = repo ''a'', Releases = [rel ''v1'']\<rparr>],
           Some ''could not scan repository for the account test: could not get releases for the repository b: forbidden'')"
  by (simp add: ScanRepositories_def ScanRepositories_start_def partial_world_fetches step_defs
      repo_def)

end
